theory Spec2Isabelle
  imports Complex_Main
begin

section \<open>Data model\<close>

text \<open>
  The discount engine of the backend lives in \<^verbatim>\<open>services/discountService\<close>
  (class \<^verbatim>\<open>DiscountService\<close>); its data are the Mongoose models
  \<^verbatim>\<open>Discount\<close>, \<^verbatim>\<open>Product\<close> and \<^verbatim>\<open>User\<close>.

  Modelling conventions.
  \<^item> An \<^verbatim>\<open>ObjectId\<close> is a natural number; a \<^verbatim>\<open>Date\<close> is an integer (milliseconds).
  \<^item> A JavaScript \<^verbatim>\<open>Number\<close> is an IEEE 754 double: a finite value, an infinity or
    \<^verbatim>\<open>NaN\<close>. Every arithmetic operation of the source rounds its exact result to the
    nearest double, ties to even, and overflows to an infinity (section "IEEE doubles").
    The two zeros are one value: the program never divides by a computed zero.
  \<^item> A \<^verbatim>\<open>percentage\<close> is validated to lie between 0 and 100 whenever a discount is
    persisted, so it is finite: a real number.
  \<^item> A collection is the list of its documents in natural (insertion) order.
  \<^item> \<^verbatim>\<open>new Date()\<close> is the parameter \<open>now\<close>.
  \<^item> A field that may be absent (\<^verbatim>\<open>undefined\<close>) is an \<open>option\<close>.
\<close>

type_synonym objectId = nat
type_synonym date = int

datatype number = Fin real | PosInf | NegInf | NaN

text \<open>\<^verbatim>\<open>type: {enum: ['product', 'category', 'userGroup', 'general']}\<close>\<close>

datatype discount_type = TProduct | TCategory | TUserGroup | TGeneral

text \<open>\<^verbatim>\<open>discountSchema\<close> (models/Discount).\<close>

record discount =
  d_id :: objectId
  d_name :: string
  d_description :: "string option"
  percentage :: real
  dtype :: discount_type
  products :: "objectId list"
  categories :: "string list"
  d_userGroup :: "string option"
  startDate :: date
  endDate :: date
  active :: bool
  d_createdAt :: date

text \<open>\<^verbatim>\<open>productSchema\<close> (models/Product), as the plain object that \<^verbatim>\<open>.lean()\<close> yields.\<close>

record product =
  p_id :: objectId
  p_name :: string
  p_description :: string
  price :: number
  category :: string
  imageUrl :: string
  stock :: number
  p_createdAt :: date
  p_updatedAt :: date
  isActive :: bool

text \<open>
  \<^verbatim>\<open>userSchema\<close> (models/User). The engine reads \<^verbatim>\<open>userGroup\<close> only; the other
  fields of the schema (names, e-mail, password, tokens, preferences) take no part.
  A stored user document may lack the field, hold \<^verbatim>\<open>null\<close>, or hold a string; the
  document that \<^verbatim>\<open>User.findById\<close> returns has the schema default \<^verbatim>\<open>'regular'\<close> where the
  field was lacking.
\<close>

datatype 'a stored = Lacking | Null | Stored 'a

record user_doc =
  ud_id :: objectId
  ud_userGroup :: "string stored"

record user =
  u_id :: objectId
  u_userGroup :: "string option"

record db =
  db_products :: "product list"
  db_users :: "user_doc list"
  db_discounts :: "discount list"

datatype error = ProductNotFound | ValidationError

text \<open>
  The object literal returned by \<^verbatim>\<open>calculateProductDiscount\<close> and merged into the
  product by \<^verbatim>\<open>applyBulkDiscounts\<close>. The no-discount shape has only
  \<^verbatim>\<open>originalPrice\<close>, \<^verbatim>\<open>discountedPrice\<close> and \<^verbatim>\<open>hasDiscount\<close>; its other keys are absent.
\<close>

record pricing =
  originalPrice :: number
  discountedPrice :: number
  discountPercentage :: "real option"
  discount :: "discount option"
  hasDiscount :: bool
  savedAmount :: "number option"
  discountType :: "discount_type option"

text \<open>
  An element of the array returned by \<^verbatim>\<open>applyBulkDiscounts\<close>:
  \<^verbatim>\<open>{...product, originalPrice: ..., ...}\<close>, the copied product fields and the pricing keys.
\<close>

record priced_product =
  pp_product :: product
  pp_pricing :: pricing

section \<open>IEEE doubles\<close>

text \<open>
  Rounding a real number to the nearest double. \<open>expo z\<close> is the binary exponent of
  \<open>z\<close>, the integer \<open>e\<close> with \<open>2\<^sup>e \<le> \<bar>z\<bar> < 2\<^sup>e\<^sup>+\<^sup>1\<close>; the doubles of that binade
  are the multiples of \<open>2\<^sup>e\<^sup>-\<^sup>5\<^sup>2\<close> (53 significant bits), and below \<open>2\<^sup>-\<^sup>1\<^sup>0\<^sup>2\<^sup>2\<close> the
  subnormal doubles are the multiples of \<open>2\<^sup>-\<^sup>1\<^sup>0\<^sup>7\<^sup>4\<close>. \<open>rne\<close> rounds to the nearest
  integer, a tie going to the even one.
\<close>

fun floor_log2 :: "nat \<Rightarrow> nat" where
  "floor_log2 n = (if n < 2 then 0 else Suc (floor_log2 (n div 2)))"

declare floor_log2.simps [simp del]

definition expo :: "real \<Rightarrow> int" where
  "expo z =
     (if 1 \<le> \<bar>z\<bar> then int (floor_log2 (nat \<lfloor>\<bar>z\<bar>\<rfloor>))
      else - int (Suc (floor_log2 (nat \<lceil>1 / \<bar>z\<bar>\<rceil> - 1))))"

definition rne :: "real \<Rightarrow> int" where
  "rne r =
     (let f = \<lfloor>r\<rfloor>
      in if r - of_int f < 1 / 2 then f
         else if 1 / 2 < r - of_int f then f + 1
         else if even f then f else f + 1)"

definition quantum :: "real \<Rightarrow> real" where
  "quantum z = 2 powi (max (expo z) (- 1022) - 52)"

definition fl :: "real \<Rightarrow> real" where
  "fl z = (if z = 0 then 0 else quantum z * of_int (rne (z / quantum z)))"

text \<open>
  The double that an operation with exact result \<open>z\<close> returns: the rounded value, or an
  infinity when the rounded value lies beyond the largest double \<open>2\<^sup>1\<^sup>0\<^sup>2\<^sup>4 - 2\<^sup>9\<^sup>7\<^sup>1\<close>.
\<close>

definition to_double :: "real \<Rightarrow> number" where
  "to_double z =
     (if 2 ^ 1024 \<le> \<bar>fl z\<bar> then (if 0 < z then PosInf else NegInf) else Fin (fl z))"

text \<open>The operators \<^verbatim>\<open>*\<close>, \<^verbatim>\<open>-\<close> and \<^verbatim>\<open>/\<close> on doubles.\<close>

fun js_mul :: "number \<Rightarrow> number \<Rightarrow> number" where
  "js_mul NaN _ = NaN"
| "js_mul _ NaN = NaN"
| "js_mul (Fin a) (Fin b) = to_double (a * b)"
| "js_mul (Fin a) PosInf = (if a = 0 then NaN else if 0 < a then PosInf else NegInf)"
| "js_mul (Fin a) NegInf = (if a = 0 then NaN else if 0 < a then NegInf else PosInf)"
| "js_mul PosInf (Fin b) = (if b = 0 then NaN else if 0 < b then PosInf else NegInf)"
| "js_mul NegInf (Fin b) = (if b = 0 then NaN else if 0 < b then NegInf else PosInf)"
| "js_mul PosInf PosInf = PosInf"
| "js_mul PosInf NegInf = NegInf"
| "js_mul NegInf PosInf = NegInf"
| "js_mul NegInf NegInf = PosInf"

fun js_sub :: "number \<Rightarrow> number \<Rightarrow> number" where
  "js_sub NaN _ = NaN"
| "js_sub _ NaN = NaN"
| "js_sub (Fin a) (Fin b) = to_double (a - b)"
| "js_sub (Fin a) PosInf = NegInf"
| "js_sub (Fin a) NegInf = PosInf"
| "js_sub PosInf PosInf = NaN"
| "js_sub PosInf _ = PosInf"
| "js_sub NegInf NegInf = NaN"
| "js_sub NegInf _ = NegInf"

fun js_div :: "number \<Rightarrow> number \<Rightarrow> number" where
  "js_div NaN _ = NaN"
| "js_div _ NaN = NaN"
| "js_div (Fin a) (Fin b) =
     (if b = 0 then (if a = 0 then NaN else if 0 < a then PosInf else NegInf)
      else to_double (a / b))"
| "js_div (Fin a) _ = Fin 0"
| "js_div PosInf (Fin b) = (if 0 \<le> b then PosInf else NegInf)"
| "js_div NegInf (Fin b) = (if 0 \<le> b then NegInf else PosInf)"
| "js_div _ _ = NaN"

text \<open>
  \<^verbatim>\<open>Math.round(y)\<close>: the nearest integer, a tie going towards \<open>+\<infinity>\<close>, computed exactly
  (a double of magnitude \<open>2\<^sup>5\<^sup>2\<close> or more is an integer already).
\<close>

fun Math_round :: "number \<Rightarrow> number" where
  "Math_round (Fin y) = Fin (of_int \<lfloor>y + 1 / 2\<rfloor>)"
| "Math_round v = v"

text \<open>
  \<^verbatim>\<open>parseFloat(v.toFixed(2))\<close>. \<^verbatim>\<open>Number.prototype.toFixed\<close> works on the exact value
  of the double: it handles the sign first, then takes the integer \<open>n\<close> with \<open>n / 100\<close>
  nearest to the magnitude, the larger \<open>n\<close> on a tie; from \<open>10\<^sup>2\<^sup>1\<close> on, and for the
  infinities and \<^verbatim>\<open>NaN\<close>, it prints the number itself. \<^verbatim>\<open>parseFloat\<close> returns the
  double nearest to the decimal printed.
\<close>

fun toFixed2 :: "number \<Rightarrow> number" where
  "toFixed2 (Fin v) =
     (if 10 ^ 21 \<le> \<bar>v\<bar> then Fin v
      else if v < 0 then Fin (fl (- (of_int \<lfloor>(- v) * 100 + 1 / 2\<rfloor> / 100)))
      else Fin (fl (of_int \<lfloor>v * 100 + 1 / 2\<rfloor> / 100)))"
| "toFixed2 v = v"

text \<open>Truthiness of a string that may be absent: \<^verbatim>\<open>undefined\<close> and \<^verbatim>\<open>''\<close> are falsy.\<close>

fun truthy :: "string option \<Rightarrow> bool" where
  "truthy None = False"
| "truthy (Some s) = (s \<noteq> [])"

section \<open>Store access\<close>

definition Product_findById :: "db \<Rightarrow> objectId \<Rightarrow> product option" where
  "Product_findById s i = find (\<lambda>p. p_id p = i) (db_products s)"

text \<open>\<^verbatim>\<open>User.findById\<close> hydrates the stored document, which fills in schema defaults.\<close>

definition hydrate_user :: "user_doc \<Rightarrow> user" where
  "hydrate_user doc =
     \<lparr>u_id = ud_id doc,
      u_userGroup = (case ud_userGroup doc of
                       Lacking \<Rightarrow> Some ''regular''
                     | Null \<Rightarrow> None
                     | Stored g \<Rightarrow> Some g)\<rparr>"

definition User_findById :: "db \<Rightarrow> objectId \<Rightarrow> user option" where
  "User_findById s i = map_option hydrate_user (find (\<lambda>u. ud_id u = i) (db_users s))"

text \<open>
  \<^verbatim>\<open>Discount.find(query)\<close> where \<^verbatim>\<open>query\<close> is
  \<^verbatim>\<open>{$or: [...], startDate: {$lte: now}, endDate: {$gte: now}, active: true}\<close>:
  the \<^verbatim>\<open>$or\<close> array is a list of predicates, and a document matches when one
  of them holds together with the three other conditions.
\<close>

definition Discount_find :: "db \<Rightarrow> (discount \<Rightarrow> bool) list \<Rightarrow> date \<Rightarrow> discount list" where
  "Discount_find s ors now =
     filter (\<lambda>d. list_ex (\<lambda>q. q d) ors \<and> startDate d \<le> now \<and> endDate d \<ge> now \<and> active d)
       (db_discounts s)"

text \<open>
  \<^verbatim>\<open>.sort({percentage: -1})\<close>. MongoDB leaves the order of documents with equal keys
  open; the model keeps them in natural order (a stable sort). No theorem below depends on
  how ties are ordered unless it says so.
\<close>

definition sort_percentage_desc :: "discount list \<Rightarrow> discount list" where
  "sort_percentage_desc ds = sort_key (\<lambda>d. - percentage d) ds"

section \<open>DiscountService\<close>

definition getApplicableDiscounts ::
  "db \<Rightarrow> date \<Rightarrow> objectId \<Rightarrow> objectId option \<Rightarrow> error + discount list" where
  "getApplicableDiscounts s now productId userId =
     (case Product_findById s productId of
        None \<Rightarrow> Inl ProductNotFound
      | Some product \<Rightarrow>
          let ors = [\<lambda>d. productId \<in> set (products d),
                     \<lambda>d. dtype d = TCategory \<and> category product \<in> set (categories d),
                     \<lambda>d. dtype d = TGeneral];
              ors' = (case userId of
                        None \<Rightarrow> ors
                      | Some uid \<Rightarrow>
                          (case User_findById s uid of
                             None \<Rightarrow> ors
                           | Some user \<Rightarrow>
                               if truthy (u_userGroup user)
                               then ors @ [\<lambda>d. dtype d = TUserGroup \<and> d_userGroup d = u_userGroup user]
                               else ors))
          in Inr (sort_percentage_desc (Discount_find s ors' now)))"

text \<open>\<^verbatim>\<open>discounts[0] || null\<close>: a document is truthy, so this is the head if there is one.\<close>

definition calculateBestDiscount ::
  "db \<Rightarrow> date \<Rightarrow> objectId \<Rightarrow> objectId option \<Rightarrow> error + discount option" where
  "calculateBestDiscount s now productId userId =
     (case getApplicableDiscounts s now productId userId of
        Inl e \<Rightarrow> Inl e
      | Inr discounts \<Rightarrow> Inr (case discounts of [] \<Rightarrow> None | d # _ \<Rightarrow> Some d))"

definition calculateProductDiscount ::
  "db \<Rightarrow> date \<Rightarrow> objectId \<Rightarrow> objectId option \<Rightarrow> error + pricing" where
  "calculateProductDiscount s now productId userId =
     (case Product_findById s productId of
        None \<Rightarrow> Inl ProductNotFound
      | Some product \<Rightarrow>
          (case calculateBestDiscount s now productId userId of
             Inl e \<Rightarrow> Inl e
           | Inr None \<Rightarrow>
               Inr \<lparr>originalPrice = price product,
                    discountedPrice = price product,
                    discountPercentage = None,
                    discount = None,
                    hasDiscount = False,
                    savedAmount = None,
                    discountType = None\<rparr>
           | Inr (Some bestDiscount) \<Rightarrow>
               let discountMultiplier =
                     js_div (js_sub (Fin 100) (Fin (percentage bestDiscount))) (Fin 100);
                   discountedPrice' =
                     js_div (Math_round (js_mul (js_mul (price product) discountMultiplier)
                                           (Fin 100)))
                       (Fin 100)
               in Inr \<lparr>originalPrice = price product,
                       discountedPrice = discountedPrice',
                       discountPercentage = Some (percentage bestDiscount),
                       discount = Some bestDiscount,
                       hasDiscount = True,
                       savedAmount = Some (toFixed2 (js_sub (price product) discountedPrice')),
                       discountType = Some (dtype bestDiscount)\<rparr>))"

text \<open>
  The per-product filter of \<^verbatim>\<open>applyBulkDiscounts\<close>; \<^verbatim>\<open>userId\<close> is an
  \<^verbatim>\<open>ObjectId\<close> or absent, so it is truthy exactly when it is present.
  \<^verbatim>\<open>includes\<close> on the arrays of a Mongoose document compares ids by value.
\<close>

definition productDiscounts :: "discount list \<Rightarrow> product \<Rightarrow> objectId option \<Rightarrow> discount list" where
  "productDiscounts combinedDiscounts product userId =
     filter (\<lambda>d. dtype d = TGeneral \<or>
                 (dtype d = TCategory \<and> category product \<in> set (categories d)) \<or>
                 (dtype d = TProduct \<and> p_id product \<in> set (products d)) \<or>
                 (dtype d = TUserGroup \<and> userId \<noteq> None))
       combinedDiscounts"

text \<open>
  \<^verbatim>\<open>xs.length ? xs.reduce((max, d) => d.percentage > max.percentage ? d : max) : null\<close>;
  \<^verbatim>\<open>reduce\<close> without an initial value starts from the first element.
\<close>

definition reduce_max :: "discount list \<Rightarrow> discount option" where
  "reduce_max xs =
     (case xs of
        [] \<Rightarrow> None
      | d0 # ds \<Rightarrow> Some (foldl (\<lambda>max d. if percentage d > percentage max then d else max) d0 ds))"

definition applyBulkDiscounts ::
  "db \<Rightarrow> date \<Rightarrow> product list \<Rightarrow> objectId option \<Rightarrow> priced_product list" where
  "applyBulkDiscounts s now prods userId =
     (let allDiscounts =
            Discount_find s
              [\<lambda>d. list_ex (\<lambda>i. i \<in> set (map p_id prods)) (products d),
               \<lambda>d. dtype d = TCategory \<and>
                    list_ex (\<lambda>c. c \<in> set (remdups (map category prods))) (categories d),
               \<lambda>d. dtype d = TGeneral]
              now;
          userGroupDiscounts =
            (case userId of
               None \<Rightarrow> []
             | Some uid \<Rightarrow>
                 (case User_findById s uid of
                    None \<Rightarrow> []
                  | Some user \<Rightarrow>
                      if truthy (u_userGroup user)
                      then filter (\<lambda>d. dtype d = TUserGroup \<and> d_userGroup d = u_userGroup user \<and>
                                       startDate d \<le> now \<and> endDate d \<ge> now \<and> active d)
                             (db_discounts s)
                      else []));
          combinedDiscounts = allDiscounts @ userGroupDiscounts
      in map (\<lambda>product.
                (case reduce_max (productDiscounts combinedDiscounts product userId) of
                   None \<Rightarrow>
                     \<lparr>pp_product = product,
                      pp_pricing = \<lparr>originalPrice = price product,
                                    discountedPrice = price product,
                                    discountPercentage = None,
                                    discount = None,
                                    hasDiscount = False,
                                    savedAmount = None,
                                    discountType = None\<rparr>\<rparr>
                 | Some bestDiscount \<Rightarrow>
                     let discountMultiplier =
                           js_div (js_sub (Fin 100) (Fin (percentage bestDiscount))) (Fin 100);
                         discountedPrice' =
                           js_div (Math_round (js_mul (js_mul (price product) discountMultiplier)
                                                 (Fin 100)))
                             (Fin 100)
                     in \<lparr>pp_product = product,
                         pp_pricing = \<lparr>originalPrice = price product,
                                       discountedPrice = discountedPrice',
                                       discountPercentage = Some (percentage bestDiscount),
                                       discount = Some bestDiscount,
                                       hasDiscount = True,
                                       savedAmount = Some (toFixed2 (js_sub (price product) discountedPrice')),
                                       discountType = Some (dtype bestDiscount)\<rparr>\<rparr>))
           prods)"

section \<open>Persisting discounts\<close>

text \<open>
  The body of a create or update request: every key may be absent. A \<^verbatim>\<open>type\<close> outside
  the enum is rejected by the schema and has no value here.
\<close>

record discountData =
  dd_name :: "string option"
  dd_description :: "string option"
  dd_percentage :: "real option"
  dd_type :: "discount_type option"
  dd_products :: "objectId list option"
  dd_categories :: "string list option"
  dd_userGroup :: "string option"
  dd_startDate :: "date option"
  dd_endDate :: "date option"
  dd_active :: "bool option"
  dd_createdAt :: "date option"

text \<open>
  The validators of \<^verbatim>\<open>discountSchema\<close>: \<^verbatim>\<open>name\<close>, \<^verbatim>\<open>percentage\<close>, \<^verbatim>\<open>type\<close>,
  \<^verbatim>\<open>startDate\<close> and \<^verbatim>\<open>endDate\<close> are required, \<^verbatim>\<open>percentage\<close> has
  \<^verbatim>\<open>min: 0, max: 100\<close>. A required string must not be empty.
\<close>

definition percentage_valid :: "real \<Rightarrow> bool" where
  "percentage_valid p = (0 \<le> p \<and> p \<le> 100)"

text \<open>
  \<^verbatim>\<open>new Discount(discountData)\<close> followed by the validation that \<^verbatim>\<open>save()\<close> runs first:
  the document with the schema defaults (\<^verbatim>\<open>active: true\<close>, \<^verbatim>\<open>createdAt: Date.now\<close>,
  empty arrays), or a validation error.
\<close>

definition Discount_new :: "objectId \<Rightarrow> date \<Rightarrow> discountData \<Rightarrow> error + discount" where
  "Discount_new newId now discountData =
     (case (dd_name discountData, dd_percentage discountData, dd_type discountData,
            dd_startDate discountData, dd_endDate discountData) of
        (Some n, Some p, Some t, Some sd, Some ed) \<Rightarrow>
          if n \<noteq> [] \<and> percentage_valid p
          then Inr \<lparr>d_id = newId, d_name = n, d_description = dd_description discountData,
                    percentage = p, dtype = t,
                    products = (case dd_products discountData of None \<Rightarrow> [] | Some ps \<Rightarrow> ps),
                    categories = (case dd_categories discountData of None \<Rightarrow> [] | Some cs \<Rightarrow> cs),
                    d_userGroup = dd_userGroup discountData,
                    startDate = sd, endDate = ed,
                    active = (case dd_active discountData of None \<Rightarrow> True | Some a \<Rightarrow> a),
                    d_createdAt = (case dd_createdAt discountData of None \<Rightarrow> now | Some c \<Rightarrow> c)\<rparr>
          else Inl ValidationError
      | _ \<Rightarrow> Inl ValidationError)"

text \<open>
  \<^verbatim>\<open>discountSchema.pre('save', ...)\<close>:
  \<^verbatim>\<open>this.active = this.startDate <= now && this.endDate >= now\<close>.
\<close>

definition pre_save :: "date \<Rightarrow> discount \<Rightarrow> discount" where
  "pre_save now this = this\<lparr>active := (startDate this \<le> now \<and> endDate this \<ge> now)\<rparr>"

text \<open>
  \<^verbatim>\<open>createDiscount\<close>: \<^verbatim>\<open>new Discount(discountData)\<close>, then \<^verbatim>\<open>discount.save()\<close>, which runs
  the \<^verbatim>\<open>save\<close> middleware and inserts the document.
\<close>

definition createDiscount ::
  "db \<Rightarrow> date \<Rightarrow> objectId \<Rightarrow> discountData \<Rightarrow> error + (discount \<times> db)" where
  "createDiscount s now newId discountData =
     (case Discount_new newId now discountData of
        Inl e \<Rightarrow> Inl e
      | Inr doc \<Rightarrow>
          let discount' = pre_save now doc
          in Inr (discount', s\<lparr>db_discounts := db_discounts s @ [discount']\<rparr>))"

text \<open>
  \<^verbatim>\<open>updateDiscount\<close>:
  \<^verbatim>\<open>Discount.findByIdAndUpdate(discountId, updateData, {new: true, runValidators: true})\<close>.
  Mongoose sends this as one update query: the keys present in \<^verbatim>\<open>updateData\<close> are
  validated and overwrite the stored ones, the updated document (or \<^verbatim>\<open>null\<close> when the
  id is unknown) is returned. \<^verbatim>\<open>save\<close> middleware is document middleware and is not run
  by a query, so \<^verbatim>\<open>pre_save\<close> does not occur here.
\<close>

definition apply_update :: "discountData \<Rightarrow> discount \<Rightarrow> discount" where
  "apply_update u d =
     \<lparr>d_id = d_id d,
      d_name = (case dd_name u of None \<Rightarrow> d_name d | Some n \<Rightarrow> n),
      d_description = (case dd_description u of None \<Rightarrow> d_description d | Some x \<Rightarrow> Some x),
      percentage = (case dd_percentage u of None \<Rightarrow> percentage d | Some p \<Rightarrow> p),
      dtype = (case dd_type u of None \<Rightarrow> dtype d | Some t \<Rightarrow> t),
      products = (case dd_products u of None \<Rightarrow> products d | Some ps \<Rightarrow> ps),
      categories = (case dd_categories u of None \<Rightarrow> categories d | Some cs \<Rightarrow> cs),
      d_userGroup = (case dd_userGroup u of None \<Rightarrow> d_userGroup d | Some g \<Rightarrow> Some g),
      startDate = (case dd_startDate u of None \<Rightarrow> startDate d | Some sd \<Rightarrow> sd),
      endDate = (case dd_endDate u of None \<Rightarrow> endDate d | Some ed \<Rightarrow> ed),
      active = (case dd_active u of None \<Rightarrow> active d | Some a \<Rightarrow> a),
      d_createdAt = (case dd_createdAt u of None \<Rightarrow> d_createdAt d | Some c \<Rightarrow> c)\<rparr>"

definition update_valid :: "discountData \<Rightarrow> bool" where
  "update_valid u =
     ((case dd_name u of None \<Rightarrow> True | Some n \<Rightarrow> n \<noteq> []) \<and>
      (case dd_percentage u of None \<Rightarrow> True | Some p \<Rightarrow> percentage_valid p))"

definition updateDiscount ::
  "db \<Rightarrow> objectId \<Rightarrow> discountData \<Rightarrow> error + (discount option \<times> db)" where
  "updateDiscount s discountId updateData =
     (if \<not> update_valid updateData then Inl ValidationError
      else (case find (\<lambda>d. d_id d = discountId) (db_discounts s) of
              None \<Rightarrow> Inr (None, s)
            | Some d \<Rightarrow>
                Inr (Some (apply_update updateData d),
                     s\<lparr>db_discounts :=
                         map (\<lambda>x. if d_id x = discountId then apply_update updateData x else x)
                           (db_discounts s)\<rparr>)))"

section \<open>Notions of the specification\<close>

text \<open>
  \<open>round2\<close> as the specification words it: rounding to 2 decimal places, half away from
  zero, in exact arithmetic.
\<close>

definition round2 :: "real \<Rightarrow> real" where
  "round2 v = sgn v * (of_int \<lfloor>\<bar>v\<bar> * 100 + 1 / 2\<rfloor> / 100)"

text \<open>
  The double that stands for \<open>k\<close> cents, that is, what the literal \<open>k / 100\<close> written with
  2 decimals denotes; and a price that is a whole number of cents ("already 2-decimal").
\<close>

definition cents :: "int \<Rightarrow> real" where
  "cents k = fl (of_int k / 100)"

definition whole_cents :: "real \<Rightarrow> bool" where
  "whole_cents x = (x = cents \<lfloor>x * 100 + 1 / 2\<rfloor>)"

section \<open>Auxiliary definitions\<close>

text \<open>
  The two shapes of a priced result, as both \<^verbatim>\<open>calculateProductDiscount\<close> and
  \<^verbatim>\<open>applyBulkDiscounts\<close> build them; used to state what the two functions compute.
\<close>

definition discountedPriceOf :: "number \<Rightarrow> real \<Rightarrow> number" where
  "discountedPriceOf x p =
     js_div (Math_round (js_mul (js_mul x (js_div (js_sub (Fin 100) (Fin p)) (Fin 100)))
                           (Fin 100)))
       (Fin 100)"

text \<open>
  For finite values in range, the factor \<^verbatim>\<open>(100 - percentage) / 100\<close> as a double, and
  the integer that \<^verbatim>\<open>Math.round(price * discountMultiplier * 100)\<close> arrives at.
\<close>

definition multiplier_of :: "real \<Rightarrow> real" where
  "multiplier_of p = fl (fl (100 - p) / 100)"

definition cents_of :: "real \<Rightarrow> real \<Rightarrow> int" where
  "cents_of x p = \<lfloor>fl (fl (x * multiplier_of p) * 100) + 1 / 2\<rfloor>"

definition pricingOf :: "product \<Rightarrow> discount option \<Rightarrow> pricing" where
  "pricingOf product best =
     (case best of
        None \<Rightarrow>
          \<lparr>originalPrice = price product,
           discountedPrice = price product,
           discountPercentage = None,
           discount = None,
           hasDiscount = False,
           savedAmount = None,
           discountType = None\<rparr>
      | Some bestDiscount \<Rightarrow>
          \<lparr>originalPrice = price product,
           discountedPrice = discountedPriceOf (price product) (percentage bestDiscount),
           discountPercentage = Some (percentage bestDiscount),
           discount = Some bestDiscount,
           hasDiscount = True,
           savedAmount =
             Some (toFixed2 (js_sub (price product)
                     (discountedPriceOf (price product) (percentage bestDiscount)))),
           discountType = Some (dtype bestDiscount)\<rparr>)"

text \<open>
  The merged candidate pool \<^verbatim>\<open>combinedDiscounts\<close> of \<^verbatim>\<open>applyBulkDiscounts\<close>, named so
  that theorems can speak about it.
\<close>

definition bulk_pool :: "db \<Rightarrow> date \<Rightarrow> product list \<Rightarrow> objectId option \<Rightarrow> discount list" where
  "bulk_pool s now prods userId =
     Discount_find s
       [\<lambda>d. list_ex (\<lambda>i. i \<in> set (map p_id prods)) (products d),
        \<lambda>d. dtype d = TCategory \<and>
             list_ex (\<lambda>c. c \<in> set (remdups (map category prods))) (categories d),
        \<lambda>d. dtype d = TGeneral]
       now @
     (case userId of
        None \<Rightarrow> []
      | Some uid \<Rightarrow>
          (case User_findById s uid of
             None \<Rightarrow> []
           | Some user \<Rightarrow>
               if truthy (u_userGroup user)
               then filter (\<lambda>d. dtype d = TUserGroup \<and> d_userGroup d = u_userGroup user \<and>
                                startDate d \<le> now \<and> endDate d \<ge> now \<and> active d)
                      (db_discounts s)
               else []))"

section \<open>Example data\<close>

definition boots :: product where
  "boots = \<lparr>p_id = 1, p_name = ''Boots'', p_description = ''Leather boots'', price = Fin 100,
             category = ''shoes'', imageUrl = ''/public/uploads/boots.png'', stock = Fin 5,
             p_createdAt = 0, p_updatedAt = 0, isActive = True\<rparr>"

text \<open>
  A discount switched from \<^verbatim>\<open>product\<close> to \<^verbatim>\<open>category\<close> scope whose
  \<^verbatim>\<open>products\<close> array still lists the boots.
\<close>

definition hats_sale :: discount where
  "hats_sale = \<lparr>d_id = 10, d_name = ''Hats sale'', d_description = None, percentage = 50,
                 dtype = TCategory, products = [1], categories = [''hats''],
                 d_userGroup = None, startDate = 0, endDate = 100, active = True,
                 d_createdAt = 0\<rparr>"

text \<open>A discount for the user group "members" that names no product.\<close>

definition members_sale :: discount where
  "members_sale = \<lparr>d_id = 11, d_name = ''Members'', d_description = None, percentage = 30,
                    dtype = TUserGroup, products = [], categories = [],
                    d_userGroup = Some ''members'', startDate = 0, endDate = 100, active = True,
                    d_createdAt = 0\<rparr>"

definition shop :: db where
  "shop = \<lparr>db_products = [boots], db_users = [], db_discounts = [hats_sale]\<rparr>"

text \<open>What \<^verbatim>\<open>calculateProductDiscount\<close> returns for the boots in \<open>shop\<close>.\<close>

definition boots_half_price :: pricing where
  "boots_half_price =
     \<lparr>originalPrice = Fin 100, discountedPrice = Fin 50, discountPercentage = Some 50,
      discount = Some hats_sale, hasDiscount = True, savedAmount = Some (Fin 50),
      discountType = Some TCategory\<rparr>"


definition scarf :: product where
  "scarf = \<lparr>p_id = 6, p_name = ''Scarf'', p_description = ''Wool scarf'',
             price = Fin (cents 1999), category = ''accessories'',
             imageUrl = ''/public/uploads/scarf.png'', stock = Fin 7,
             p_createdAt = 0, p_updatedAt = 0, isActive = True\<rparr>"

definition sticker :: product where
  "sticker = \<lparr>p_id = 2, p_name = ''Sticker'', p_description = ''Paper sticker'', price = Fin (1 / 8),
               category = ''stationery'', imageUrl = ''/public/uploads/sticker.png'', stock = Fin 900,
               p_createdAt = 0, p_updatedAt = 0, isActive = True\<rparr>"

definition button :: product where
  "button = \<lparr>p_id = 3, p_name = ''Button'', p_description = ''Shirt button'', price = Fin (3 / 8),
              category = ''haberdashery'', imageUrl = ''/public/uploads/button.png'', stock = Fin 40,
              p_createdAt = 0, p_updatedAt = 0, isActive = True\<rparr>"

definition bun :: product where
  "bun = \<lparr>p_id = 4, p_name = ''Bun'', p_description = ''Sweet bun'', price = Fin (5 / 4),
           category = ''bakery'', imageUrl = ''/public/uploads/bun.png'', stock = Fin 12,
           p_createdAt = 0, p_updatedAt = 0, isActive = True\<rparr>"

definition zero_general :: discount where
  "zero_general = \<lparr>d_id = 12, d_name = ''Announcement'', d_description = None, percentage = 0,
                    dtype = TGeneral, products = [], categories = [],
                    d_userGroup = None, startDate = 0, endDate = 100, active = True,
                    d_createdAt = 0\<rparr>"

definition half_off :: discount where
  "half_off = \<lparr>d_id = 13, d_name = ''Half off'', d_description = None, percentage = 50,
                dtype = TGeneral, products = [], categories = [],
                d_userGroup = None, startDate = 0, endDate = 100, active = True,
                d_createdAt = 0\<rparr>"


definition fifteen_off :: discount where
  "fifteen_off = \<lparr>d_id = 18, d_name = ''Fifteen'', d_description = None, percentage = 15,
                   dtype = TGeneral, products = [], categories = [],
                   d_userGroup = None, startDate = 0, endDate = 100, active = True,
                   d_createdAt = 0\<rparr>"


definition arcade :: db where
  "arcade = \<lparr>db_products = [scarf], db_users = [], db_discounts = [fifteen_off]\<rparr>"

definition gallery :: db where
  "gallery = \<lparr>db_products = [scarf], db_users = [], db_discounts = [zero_general]\<rparr>"

definition kiosk :: db where
  "kiosk = \<lparr>db_products = [sticker, button], db_users = [], db_discounts = [zero_general]\<rparr>"

definition bakery :: db where
  "bakery = \<lparr>db_products = [bun], db_users = [], db_discounts = [half_off]\<rparr>"

text \<open>The boots with a discount of 0 percent, and with no discount at all.\<close>

definition boutique :: db where
  "boutique = \<lparr>db_products = [boots], db_users = [], db_discounts = [zero_general]\<rparr>"

definition bare_shop :: db where
  "bare_shop = \<lparr>db_products = [boots], db_users = [], db_discounts = []\<rparr>"

definition boots_zero_percent :: pricing where
  "boots_zero_percent =
     \<lparr>originalPrice = Fin 100, discountedPrice = Fin 100, discountPercentage = Some 0,
      discount = Some zero_general, hasDiscount = True, savedAmount = Some (Fin 0),
      discountType = Some TGeneral\<rparr>"

definition boots_undiscounted :: pricing where
  "boots_undiscounted =
     \<lparr>originalPrice = Fin 100, discountedPrice = Fin 100, discountPercentage = None,
      discount = None, hasDiscount = False, savedAmount = None, discountType = None\<rparr>"

text \<open>
  A \<^verbatim>\<open>userGroup\<close> discount for the group "staff" whose \<^verbatim>\<open>products\<close> array lists the
  boots, in a store without users.
\<close>

definition staff_sale :: discount where
  "staff_sale = \<lparr>d_id = 14, d_name = ''Staff'', d_description = None, percentage = 30,
                  dtype = TUserGroup, products = [1], categories = [],
                  d_userGroup = Some ''staff'', startDate = 0, endDate = 100, active = True,
                  d_createdAt = 0\<rparr>"

definition outlet :: db where
  "outlet = \<lparr>db_products = [boots], db_users = [], db_discounts = [staff_sale]\<rparr>"

text \<open>
  A running discount, an update request that moves its window into the future, and a
  create request that asks for a switched-off discount.
\<close>

definition spring_sale :: discount where
  "spring_sale = \<lparr>d_id = 15, d_name = ''Spring'', d_description = None, percentage = 10,
                   dtype = TGeneral, products = [], categories = [],
                   d_userGroup = None, startDate = 0, endDate = 100, active = True,
                   d_createdAt = 0\<rparr>"

definition promo :: db where
  "promo = \<lparr>db_products = [boots], db_users = [], db_discounts = [spring_sale]\<rparr>"

definition no_change :: discountData where
  "no_change = \<lparr>dd_name = None, dd_description = None, dd_percentage = None, dd_type = None,
                 dd_products = None, dd_categories = None, dd_userGroup = None,
                 dd_startDate = None, dd_endDate = None, dd_active = None,
                 dd_createdAt = None\<rparr>"

definition postpone :: discountData where
  "postpone = no_change\<lparr>dd_startDate := Some 200, dd_endDate := Some 300\<rparr>"

definition switched_off :: discountData where
  "switched_off = no_change\<lparr>dd_name := Some ''Autumn'', dd_percentage := Some 15,
                              dd_type := Some TGeneral, dd_startDate := Some 0,
                              dd_endDate := Some 100, dd_active := Some False\<rparr>"

text \<open>What \<^verbatim>\<open>calculateProductDiscount\<close> returns for the scarf at 15 percent and at 0 percent.\<close>

definition scarf_fifteen :: pricing where
  "scarf_fifteen =
     \<lparr>originalPrice = Fin (cents 1999), discountedPrice = Fin (cents 1699),
      discountPercentage = Some 15, discount = Some fifteen_off, hasDiscount = True,
      savedAmount = Some (Fin (cents 300)), discountType = Some TGeneral\<rparr>"

definition scarf_zero_percent :: pricing where
  "scarf_zero_percent =
     \<lparr>originalPrice = Fin (cents 1999), discountedPrice = Fin (cents 1999),
      discountPercentage = Some 0, discount = Some zero_general, hasDiscount = True,
      savedAmount = Some (Fin 0), discountType = Some TGeneral\<rparr>"

section \<open>Properties of rounding to a double\<close>

lemma floor_log2_bounds: "0 < n \<Longrightarrow> 2 ^ floor_log2 n \<le> n \<and> n < 2 ^ Suc (floor_log2 n)"
proof (induction n rule: floor_log2.induct)
  case (1 n)
  show ?case
  proof (cases "n < 2")
    case True
    with "1.prems" have "n = 1" by simp
    then show ?thesis by (simp add: floor_log2.simps)
  next
    case False
    then have pos: "0 < n div 2" by simp
    from "1.IH" [OF False pos]
    have lo: "2 ^ floor_log2 (n div 2) \<le> n div 2"
      and hi: "n div 2 < 2 ^ Suc (floor_log2 (n div 2))" by simp_all
    have eq: "floor_log2 n = Suc (floor_log2 (n div 2))"
      using False by (subst floor_log2.simps) simp
    from lo have "2 * 2 ^ floor_log2 (n div 2) \<le> n" by linarith
    moreover from hi have "n < 2 * 2 ^ Suc (floor_log2 (n div 2))" by linarith
    ultimately show ?thesis by (simp add: eq)
  qed
qed

lemma expo_bounds:
  assumes "z \<noteq> 0"
  shows "2 powi (expo z) \<le> \<bar>z\<bar>" and "\<bar>z\<bar> < 2 powi (expo z + 1)"
proof -
  define a where "a = \<bar>z\<bar>"
  from assms have apos: "0 < a" by (simp add: a_def)
  have "2 powi (expo z) \<le> a \<and> a < 2 powi (expo z + 1)"
  proof (cases "1 \<le> a")
    case True
    define n where "n = nat \<lfloor>a\<rfloor>"
    from True have npos: "0 < n" by (simp add: n_def)
    have e: "expo z = int (floor_log2 n)" using True by (simp add: expo_def a_def n_def)
    from floor_log2_bounds [OF npos]
    have lo: "2 ^ floor_log2 n \<le> n" and hi: "n < 2 ^ Suc (floor_log2 n)" by simp_all
    have na: "real n \<le> a"
      using True unfolding n_def by simp
    have an: "a < real n + 1"
      using True unfolding n_def by simp
    from lo have "real (2 ^ floor_log2 n) \<le> real n" by (simp only: of_nat_le_iff)
    then have "(2::real) ^ floor_log2 n \<le> real n" by simp
    with na have l: "(2::real) ^ floor_log2 n \<le> a" by linarith
    from hi have "n + 1 \<le> 2 ^ Suc (floor_log2 n)" by simp
    then have "real (n + 1) \<le> real (2 ^ Suc (floor_log2 n))" by (simp only: of_nat_le_iff)
    then have "real n + 1 \<le> 2 ^ Suc (floor_log2 n)" by simp
    with an have h: "a < 2 ^ Suc (floor_log2 n)" by linarith
    have "int (floor_log2 n) + 1 = int (Suc (floor_log2 n))" by simp
    with l h show ?thesis unfolding e by (simp only: power_int_of_nat)
  next
    case False
    define n where "n = nat \<lceil>1 / a\<rceil>"
    define c where "c = Suc (floor_log2 (n - 1))"
    from False apos have inv: "1 < 1 / a" by simp
    then have n2: "2 \<le> n" unfolding n_def by linarith
    have e: "expo z = - int c" using False by (simp add: expo_def a_def n_def c_def)
    from n2 have "0 < n - 1" by simp
    from floor_log2_bounds [OF this]
    have lo: "2 ^ floor_log2 (n - 1) \<le> n - 1" and hi: "n - 1 < 2 ^ c" by (simp_all add: c_def)
    have up: "1 / a \<le> real n" unfolding n_def using inv by linarith
    have dn: "real n - 1 < 1 / a" unfolding n_def using inv by linarith
    from hi n2 have "n \<le> 2 ^ c" by simp
    then have "real n \<le> real (2 ^ c)" by (simp only: of_nat_le_iff)
    then have "real n \<le> 2 ^ c" by simp
    with up have "1 / a \<le> 2 ^ c" by linarith
    with apos have "1 \<le> a * 2 ^ c" by (simp add: field_simps)
    then have l: "1 / 2 ^ c \<le> a" by (simp add: field_simps)
    from lo have "real (2 ^ floor_log2 (n - 1)) \<le> real (n - 1)" by (simp only: of_nat_le_iff)
    then have "(2::real) ^ floor_log2 (n - 1) \<le> real n - 1" using n2 by simp
    with dn have "(2::real) ^ floor_log2 (n - 1) < 1 / a" by linarith
    with apos have "a * 2 ^ floor_log2 (n - 1) < 1" by (simp add: field_simps)
    then have h: "a < 1 / 2 ^ floor_log2 (n - 1)" by (simp add: field_simps)
    have p1: "(2::real) powi (- int c) = 1 / 2 ^ c"
      by (simp add: power_int_minus_divide)
    have "- int c + 1 = - int (floor_log2 (n - 1))" by (simp add: c_def)
    then have p2: "(2::real) powi (- int c + 1) = 1 / 2 ^ floor_log2 (n - 1)"
      by (simp add: power_int_minus_divide)
    from l h show ?thesis unfolding e p1 p2 by simp
  qed
  then show "2 powi (expo z) \<le> \<bar>z\<bar>" and "\<bar>z\<bar> < 2 powi (expo z + 1)"
    by (simp_all add: a_def)
qed

lemma pow2_less_cancel:
  assumes "(2::real) powi m < 2 powi n"
  shows "m < n"
proof (rule ccontr)
  assume "\<not> m < n"
  then have "n \<le> m" by simp
  then have "(2::real) powi n \<le> 2 powi m" by (rule power_int_increasing) simp
  with assms show False by linarith
qed

lemma expo_unique:
  assumes "2 powi e \<le> \<bar>z\<bar>" and "\<bar>z\<bar> < 2 powi (e + 1)"
  shows "expo z = e"
proof -
  have nz: "z \<noteq> 0"
  proof
    assume "z = 0"
    with assms(1) have "(2::real) powi e \<le> 0" by simp
    moreover have "0 < (2::real) powi e" by (rule zero_less_power_int) simp
    ultimately show False by linarith
  qed
  from expo_bounds [OF nz] assms
  have a: "(2::real) powi e < 2 powi (expo z + 1)" and b: "(2::real) powi expo z < 2 powi (e + 1)"
    by linarith+
  from pow2_less_cancel [OF a] pow2_less_cancel [OF b] show ?thesis by simp
qed

lemma rne_of_int: "rne (of_int n) = n"
  by (simp add: rne_def)

lemma rne_cases: "rne r = \<lfloor>r\<rfloor> \<or> rne r = \<lfloor>r\<rfloor> + 1"
  by (simp add: rne_def Let_def)

lemma rne_error: "\<bar>of_int (rne r) - r\<bar> \<le> 1 / 2"
proof -
  have "of_int \<lfloor>r\<rfloor> \<le> r" "r < of_int \<lfloor>r\<rfloor> + 1" by linarith+
  then show ?thesis unfolding rne_def Let_def by (auto simp: abs_le_iff)
qed

lemma rne_mono:
  assumes "r \<le> s"
  shows "rne r \<le> rne s"
proof (cases "\<lfloor>r\<rfloor> = \<lfloor>s\<rfloor>")
  case True
  with assms show ?thesis unfolding rne_def Let_def by auto
next
  case False
  with assms have "\<lfloor>r\<rfloor> < \<lfloor>s\<rfloor>" using floor_mono [OF assms] by linarith
  moreover have "rne r \<le> \<lfloor>r\<rfloor> + 1" using rne_cases [of r] by linarith
  moreover have "\<lfloor>s\<rfloor> \<le> rne s" using rne_cases [of s] by linarith
  ultimately show ?thesis by linarith
qed

lemma quantum_pos: "0 < quantum z"
  unfolding quantum_def by (rule zero_less_power_int) simp

lemma fl_zero: "fl 0 = 0"
  by (simp add: fl_def)

lemma fl_error: "\<bar>fl z - z\<bar> \<le> quantum z / 2"
proof (cases "z = 0")
  case True
  then show ?thesis using quantum_pos [of z] by (simp add: fl_def)
next
  case False
  define q where "q = quantum z"
  have qpos: "0 < q" unfolding q_def by (rule quantum_pos)
  have "fl z - z = q * (of_int (rne (z / q)) - z / q)"
    using False qpos by (simp add: fl_def q_def algebra_simps)
  then have "\<bar>fl z - z\<bar> = q * \<bar>of_int (rne (z / q)) - z / q\<bar>"
    using qpos by (simp add: abs_mult)
  also have "\<dots> \<le> q * (1 / 2)"
    using rne_error [of "z / q"] qpos by (intro mult_left_mono) simp_all
  finally show ?thesis by (simp add: q_def)
qed

lemma fl_nonneg:
  assumes "0 \<le> z"
  shows "0 \<le> fl z"
proof (cases "z = 0")
  case True
  then show ?thesis by (simp add: fl_def)
next
  case False
  have "0 \<le> z / quantum z" using assms quantum_pos [of z] by simp
  then have "rne 0 \<le> rne (z / quantum z)" by (rule rne_mono)
  then have "0 \<le> rne (z / quantum z)" using rne_of_int [of 0] by simp
  then show ?thesis using False quantum_pos [of z] by (simp add: fl_def)
qed


lemma expo_mono:
  assumes "z \<noteq> 0" and "\<bar>z\<bar> \<le> \<bar>w\<bar>"
  shows "expo z \<le> expo w"
proof -
  from assms have wz: "w \<noteq> 0" by auto
  from expo_bounds(1) [OF assms(1)] expo_bounds(2) [OF wz] assms(2)
  have "(2::real) powi expo z < 2 powi (expo w + 1)" by linarith
  from pow2_less_cancel [OF this] show ?thesis by simp
qed

lemma quantum_53: "quantum z * 9007199254740992 = 2 powi (max (expo z) (- 1022) + 1)"
proof -
  have "(2::real) powi (max (expo z) (- 1022) - 52 + 53) =
        2 powi (max (expo z) (- 1022) - 52) * 2 powi 53"
    by (rule power_int_add) simp
  moreover have "max (expo z) (- 1022) - 52 + 53 = max (expo z) (- 1022) + 1" by simp
  moreover have "(2::real) powi 53 = 9007199254740992" by simp
  ultimately show ?thesis unfolding quantum_def by simp
qed

lemma quantum_52: "quantum z * 4503599627370496 = 2 powi (max (expo z) (- 1022))"
proof -
  have "(2::real) powi (max (expo z) (- 1022) - 52 + 52) =
        2 powi (max (expo z) (- 1022) - 52) * 2 powi 52"
    by (rule power_int_add) simp
  moreover have "max (expo z) (- 1022) - 52 + 52 = max (expo z) (- 1022)" by simp
  moreover have "(2::real) powi 52 = 4503599627370496" by simp
  ultimately show ?thesis unfolding quantum_def by simp
qed

lemma fl_upper:
  assumes "0 < z"
  shows "fl z \<le> 2 powi (max (expo z) (- 1022) + 1)"
proof -
  define q where "q = quantum z"
  have qpos: "0 < q" unfolding q_def by (rule quantum_pos)
  from assms have nz: "z \<noteq> 0" by simp
  have q53: "q * 9007199254740992 = 2 powi (max (expo z) (- 1022) + 1)"
    unfolding q_def by (rule quantum_53)
  have "z < 2 powi (expo z + 1)" using expo_bounds(2) [OF nz] assms by simp
  also have "\<dots> \<le> 2 powi (max (expo z) (- 1022) + 1)"
    by (rule power_int_increasing) simp_all
  also have "\<dots> = q * 9007199254740992" by (simp only: q53)
  finally have "z / q \<le> of_int 9007199254740992" using qpos by (simp add: field_simps)
  then have "rne (z / q) \<le> rne (of_int 9007199254740992)" by (rule rne_mono)
  then have "rne (z / q) \<le> 9007199254740992" by (simp only: rne_of_int)
  then have "real_of_int (rne (z / q)) \<le> 9007199254740992" by linarith
  then have "q * real_of_int (rne (z / q)) \<le> q * 9007199254740992"
    using qpos by (simp only: mult_le_cancel_left_pos)
  also note q53
  finally show ?thesis using nz by (simp add: fl_def q_def)
qed

lemma fl_lower:
  assumes "0 < z" and "- 1022 \<le> expo z"
  shows "2 powi (expo z) \<le> fl z"
proof -
  define q where "q = quantum z"
  have qpos: "0 < q" unfolding q_def by (rule quantum_pos)
  from assms have nz: "z \<noteq> 0" by simp
  from assms(2) have m: "max (expo z) (- 1022) = expo z" by simp
  have q52: "q * 4503599627370496 = 2 powi (expo z)"
    unfolding q_def using quantum_52 [of z] by (simp only: m)
  have "2 powi (expo z) \<le> z" using expo_bounds(1) [OF nz] assms by simp
  with q52 have "q * 4503599627370496 \<le> z" by simp
  then have "of_int 4503599627370496 \<le> z / q" using qpos by (simp add: field_simps)
  then have "rne (of_int 4503599627370496) \<le> rne (z / q)" by (rule rne_mono)
  then have "4503599627370496 \<le> rne (z / q)" by (simp only: rne_of_int)
  then have "4503599627370496 \<le> real_of_int (rne (z / q))" by linarith
  then have "q * 4503599627370496 \<le> q * real_of_int (rne (z / q))"
    using qpos by (simp only: mult_le_cancel_left_pos)
  with q52 show ?thesis using nz by (simp add: fl_def q_def)
qed

lemma fl_mono_pos:
  assumes "0 < z" and "z \<le> w"
  shows "fl z \<le> fl w"
proof -
  from assms have wpos: "0 < w" and nz: "z \<noteq> 0" and nw: "w \<noteq> 0" by simp_all
  have le: "expo z \<le> expo w" using assms by (intro expo_mono) simp_all
  show ?thesis
  proof (cases "max (expo z) (- 1022) = max (expo w) (- 1022)")
    case True
    then have q: "quantum z = quantum w" by (simp add: quantum_def)
    have "z / quantum w \<le> w / quantum w"
      using assms(2) quantum_pos [of w] by (simp add: divide_right_mono)
    then have "rne (z / quantum w) \<le> rne (w / quantum w)" by (rule rne_mono)
    then have "real_of_int (rne (z / quantum w)) \<le> real_of_int (rne (w / quantum w))" by simp
    then have "quantum w * real_of_int (rne (z / quantum w)) \<le>
               quantum w * real_of_int (rne (w / quantum w))"
      using quantum_pos [of w] by (simp only: mult_le_cancel_left_pos)
    then show ?thesis using nz nw by (simp add: fl_def q)
  next
    case False
    with le have lt: "max (expo z) (- 1022) + 1 \<le> expo w" and norm: "- 1022 \<le> expo w"
      by linarith+
    have "fl z \<le> 2 powi (max (expo z) (- 1022) + 1)" by (rule fl_upper [OF assms(1)])
    also have "\<dots> \<le> 2 powi (expo w)"
      using lt by (intro power_int_increasing) simp_all
    also have "\<dots> \<le> fl w" by (rule fl_lower [OF wpos norm])
    finally show ?thesis .
  qed
qed

lemma fl_mono:
  assumes "0 \<le> z" and "z \<le> w"
  shows "fl z \<le> fl w"
proof (cases "z = 0")
  case True
  with assms fl_nonneg [of w] show ?thesis by (simp add: fl_zero)
next
  case False
  with assms have "0 < z" by simp
  then show ?thesis using assms(2) by (rule fl_mono_pos)
qed

lemma expo_normal:
  assumes "2 powi (- 1022) \<le> \<bar>z\<bar>"
  shows "z \<noteq> 0" and "max (expo z) (- 1022) = expo z"
proof -
  have "0 < (2::real) powi (- 1022)" by (rule zero_less_power_int) simp
  with assms show nz: "z \<noteq> 0" by auto
  have "(2::real) powi (- 1022) < 2 powi (expo z + 1)"
    using assms expo_bounds(2) [OF nz] by linarith
  from pow2_less_cancel [OF this] show "max (expo z) (- 1022) = expo z" by simp
qed

lemma fl_rel_error:
  assumes "2 powi (- 1022) \<le> \<bar>z\<bar>"
  shows "\<bar>fl z - z\<bar> \<le> \<bar>z\<bar> / 9007199254740992"
proof -
  note nz = expo_normal(1) [OF assms] and m = expo_normal(2) [OF assms]
  have "quantum z * 4503599627370496 = 2 powi (expo z)"
    using quantum_52 [of z] by (simp only: m)
  with expo_bounds(1) [OF nz] have "quantum z * 4503599627370496 \<le> \<bar>z\<bar>" by simp
  then have "quantum z / 2 \<le> \<bar>z\<bar> / 9007199254740992" by (simp add: field_simps)
  with fl_error [of z] show ?thesis by linarith
qed

lemma fl_fixed:
  assumes "z = quantum z * of_int N"
  shows "fl z = z"
proof (cases "z = 0")
  case True
  then show ?thesis by (simp add: fl_def)
next
  case False
  from assms have "z / quantum z = of_int N" using quantum_pos [of z] by (simp add: field_simps)
  then have "rne (z / quantum z) = N" by (simp only: rne_of_int)
  with False assms show ?thesis by (simp add: fl_def)
qed


lemma fl_abs_error: "\<bar>fl z - z\<bar> \<le> \<bar>z\<bar> / 9007199254740992 + 1 / 2 ^ 1075"
proof (cases "2 powi (- 1022) \<le> \<bar>z\<bar>")
  case True
  from fl_rel_error [OF this] show ?thesis by simp
next
  case False
  show ?thesis
  proof (cases "z = 0")
    case True
    then show ?thesis by (simp add: fl_zero)
  next
    case nz: False
    from False expo_bounds(1) [OF nz] have "(2::real) powi expo z < 2 powi (- 1022)" by linarith
    from pow2_less_cancel [OF this] have m: "max (expo z) (- 1022) = - 1022" by simp
    have "quantum z = 2 powi (- 1074)" by (simp add: quantum_def m)
    also have "\<dots> = 1 / 2 ^ 1074" by (simp add: power_int_minus_divide)
    finally have "quantum z / 2 = 1 / 2 ^ 1075" by simp
    with fl_error [of z] have "\<bar>fl z - z\<bar> \<le> 1 / 2 ^ 1075" by simp
    moreover have "0 \<le> \<bar>z\<bar> / 9007199254740992" by simp
    ultimately show ?thesis by linarith
  qed
qed

lemma fl_idem_pos:
  assumes "0 < z"
  shows "fl (fl z) = fl z"
proof -
  define q where "q = quantum z"
  define N where "N = rne (z / q)"
  define y where "y = fl z"
  have qpos: "0 < q" unfolding q_def by (rule quantum_pos)
  from assms have nz: "z \<noteq> 0" by simp
  have y: "y = q * of_int N" using nz by (simp add: y_def fl_def q_def N_def)
  have ynn: "0 \<le> y" unfolding y_def using assms by (intro fl_nonneg) simp
  show ?thesis
  proof (cases "y = 0")
    case True
    then show ?thesis by (simp add: y_def fl_zero)
  next
    case False
    with ynn have ypos: "0 < y" by simp
    have "quantum y * of_int (if y = 2 powi (max (expo z) (- 1022) + 1) then 4503599627370496 else N) = y"
    proof (cases "y = 2 powi (max (expo z) (- 1022) + 1)")
      case True
      then have ay: "\<bar>y\<bar> = 2 powi (max (expo z) (- 1022) + 1)" using ypos by simp
      have "expo y = max (expo z) (- 1022) + 1"
      proof (rule expo_unique)
        show "2 powi (max (expo z) (- 1022) + 1) \<le> \<bar>y\<bar>" by (simp only: ay)
        show "\<bar>y\<bar> < 2 powi (max (expo z) (- 1022) + 1 + 1)"
          unfolding ay by (rule power_int_strict_increasing) simp_all
      qed
      then have "max (expo y) (- 1022) = max (expo z) (- 1022) + 1" by simp
      with quantum_52 [of y] have "quantum y * 4503599627370496 = y" by (simp only: True)
      with True show ?thesis by simp
    next
      case ne: False
      from fl_upper [OF assms] ne have up: "y < 2 powi (max (expo z) (- 1022) + 1)"
        by (simp add: y_def)
      have "max (expo y) (- 1022) = max (expo z) (- 1022)"
      proof (cases "- 1022 \<le> expo z")
        case True
        then have m: "max (expo z) (- 1022) = expo z" by simp
        from fl_lower [OF assms True] have "2 powi (expo z) \<le> \<bar>y\<bar>" using ypos by (simp add: y_def)
        moreover from up have "\<bar>y\<bar> < 2 powi (expo z + 1)" using ypos by (simp add: m)
        ultimately have "expo y = expo z" by (rule expo_unique)
        then show ?thesis by simp
      next
        case sub: False
        then have m: "max (expo z) (- 1022) = - 1022" by simp
        from False have ynz: "y \<noteq> 0" .
        from up have "\<bar>y\<bar> < 2 powi (- 1022 + 1)" using ypos by (simp add: m)
        with expo_bounds(1) [OF ynz] have "(2::real) powi expo y < 2 powi (- 1022 + 1)" by linarith
        from pow2_less_cancel [OF this] have "expo y \<le> - 1022" by simp
        then show ?thesis by (simp add: m)
      qed
      then have "quantum y = q" by (simp add: quantum_def q_def)
      with y ne show ?thesis by simp
    qed
    then have "y = quantum y * of_int (if y = 2 powi (max (expo z) (- 1022) + 1) then 4503599627370496 else N)"
      by simp
    then have "fl y = y" by (rule fl_fixed)
    then show ?thesis by (simp add: y_def)
  qed
qed

lemma fl_idem:
  assumes "0 \<le> z"
  shows "fl (fl z) = fl z"
proof (cases "z = 0")
  case True
  then show ?thesis by (simp add: fl_zero)
next
  case False
  with assms have "0 < z" by simp
  then show ?thesis by (rule fl_idem_pos)
qed

section \<open>Arithmetic of the pricing expression\<close>

lemmas eval_double = to_double_def cents_def fl_def quantum_def expo_def rne_def floor_log2.simps

lemma fl_1: "fl 1 = 1"
  by (simp add: fl_def quantum_def expo_def rne_def floor_log2.simps)

lemma fl_100: "fl 100 = 100"
  by (simp add: fl_def quantum_def expo_def rne_def floor_log2.simps)

lemma fl_ten13: "fl 10000000000000 = 10000000000000"
  by (simp add: fl_def quantum_def expo_def rne_def floor_log2.simps)

lemma fl_ten15: "fl 1000000000000000 = 1000000000000000"
  by (simp add: fl_def quantum_def expo_def rne_def floor_log2.simps)

lemma fl_ten16: "fl 10000000000000000 = 10000000000000000"
  by (simp add: fl_def quantum_def expo_def rne_def floor_log2.simps)

lemma tiny_normal: "(2::real) powi (- 1022) \<le> 1 / 200"
proof -
  have "(2::real) powi (- 1022) \<le> 2 powi (- 8)"
    by (rule power_int_increasing) simp_all
  also have "\<dots> \<le> 1 / 200" by (simp add: power_int_minus_divide)
  finally show ?thesis .
qed

lemma fl_abs_error64: "\<bar>fl z - z\<bar> \<le> \<bar>z\<bar> / 9007199254740992 + 1 / 18446744073709551616"
proof -
  have "(1::real) / 2 ^ 1075 \<le> 1 / 2 ^ 64"
    by (intro divide_left_mono power_increasing) simp_all
  also have "\<dots> = 1 / 18446744073709551616" by simp
  finally show ?thesis using fl_abs_error [of z] by linarith
qed

lemma to_double_Fin:
  assumes "0 \<le> z" and "z \<le> 10000000000000000"
  shows "to_double z = Fin (fl z)" and "0 \<le> fl z" and "fl z \<le> 10000000000000000"
proof -
  show nn: "0 \<le> fl z" by (rule fl_nonneg [OF assms(1)])
  from fl_mono [OF assms] show le: "fl z \<le> 10000000000000000" by (simp only: fl_ten16)
  have "(10000000000000000::real) < 2 ^ 1024"
  proof -
    have "(10000000000000000::real) < 2 ^ 64" by simp
    also have "\<dots> \<le> 2 ^ 1024" by (rule power_increasing) simp_all
    finally show ?thesis .
  qed
  with nn le have "\<not> 2 ^ 1024 \<le> \<bar>fl z\<bar>" by linarith
  then show "to_double z = Fin (fl z)" by (simp only: to_double_def if_False)
qed


lemma multiplier_0: "multiplier_of 0 = 1"
  by (simp add: multiplier_of_def fl_100 fl_1)

lemma multiplier_range:
  assumes "0 \<le> p" and "p \<le> 100"
  shows "0 \<le> fl (100 - p)" and "fl (100 - p) \<le> 100"
    and "0 \<le> multiplier_of p" and "multiplier_of p \<le> 1"
proof -
  from assms have t: "0 \<le> 100 - p" "100 - p \<le> 100" by simp_all
  show a0: "0 \<le> fl (100 - p)" by (rule fl_nonneg [OF t(1)])
  from fl_mono [OF t] show a1: "fl (100 - p) \<le> 100" by (simp only: fl_100)
  from a0 have d0: "0 \<le> fl (100 - p) / 100" by simp
  from a1 have d1: "fl (100 - p) / 100 \<le> 1" by simp
  show "0 \<le> multiplier_of p" unfolding multiplier_of_def by (rule fl_nonneg [OF d0])
  from fl_mono [OF d0 d1] show "multiplier_of p \<le> 1"
    unfolding multiplier_of_def by (simp only: fl_1)
qed



lemma chain_range:
  assumes "0 \<le> p" and "p \<le> 100" and "0 \<le> x" and "x \<le> 10000000000000"
  shows "0 \<le> x * multiplier_of p" and "x * multiplier_of p \<le> x"
    and "0 \<le> fl (x * multiplier_of p)" and "fl (x * multiplier_of p) \<le> 10000000000000"
    and "0 \<le> fl (fl (x * multiplier_of p) * 100)"
    and "fl (fl (x * multiplier_of p) * 100) \<le> 1000000000000000"
    and "0 \<le> cents_of x p" and "cents_of x p \<le> 1000000000000000"
proof -
  note m = multiplier_range(3,4) [OF assms(1,2)]
  show xm0: "0 \<le> x * multiplier_of p" using assms(3) m(1) by simp
  show xm1: "x * multiplier_of p \<le> x" using assms(3) m by (simp add: mult_left_le)
  show b0: "0 \<le> fl (x * multiplier_of p)" by (rule fl_nonneg [OF xm0])
  from xm1 assms(4) have "x * multiplier_of p \<le> 10000000000000" by linarith
  from fl_mono [OF xm0 this] show b1: "fl (x * multiplier_of p) \<le> 10000000000000"
    by (simp only: fl_ten13)
  from b0 have c0: "0 \<le> fl (x * multiplier_of p) * 100" by simp
  from b1 have c1: "fl (x * multiplier_of p) * 100 \<le> 1000000000000000" by simp
  show y0: "0 \<le> fl (fl (x * multiplier_of p) * 100)" by (rule fl_nonneg [OF c0])
  from fl_mono [OF c0 c1] show y1: "fl (fl (x * multiplier_of p) * 100) \<le> 1000000000000000"
    by (simp only: fl_ten15)
  from y0 show "0 \<le> cents_of x p" unfolding cents_of_def by simp
  from y1 have "fl (fl (x * multiplier_of p) * 100) + 1 / 2 < 1000000000000000 + 1" by simp
  then have "\<lfloor>fl (fl (x * multiplier_of p) * 100) + 1 / 2\<rfloor> < 1000000000000000 + 1"
    by (simp only: floor_less_iff of_int_add of_int_numeral of_int_1)
  then show "cents_of x p \<le> 1000000000000000" unfolding cents_of_def by simp
qed

lemma discountedPriceOf_cents:
  assumes "0 \<le> p" and "p \<le> 100" and "0 \<le> x" and "x \<le> 10000000000000"
  shows "discountedPriceOf (Fin x) p = Fin (cents (cents_of x p))"
proof -
  note r = chain_range [OF assms]
  from assms have t: "0 \<le> 100 - p" "100 - p \<le> 10000000000000000" by simp_all
  have s1: "js_sub (Fin 100) (Fin p) = Fin (fl (100 - p))"
    using to_double_Fin(1) [OF t] by simp
  note a = multiplier_range(1,2) [OF assms(1,2)]
  from a have d: "0 \<le> fl (100 - p) / 100" "fl (100 - p) / 100 \<le> 10000000000000000" by simp_all
  have s2: "js_div (Fin (fl (100 - p))) (Fin 100) = Fin (multiplier_of p)"
    using to_double_Fin(1) [OF d] by (simp add: multiplier_of_def)
  from r(2) assms(4) have "x * multiplier_of p \<le> 10000000000000000" by linarith
  from to_double_Fin(1) [OF r(1) this]
  have s3: "js_mul (Fin x) (Fin (multiplier_of p)) = Fin (fl (x * multiplier_of p))" by simp
  from r(3,4) have c: "0 \<le> fl (x * multiplier_of p) * 100"
    "fl (x * multiplier_of p) * 100 \<le> 10000000000000000" by simp_all
  from to_double_Fin(1) [OF c]
  have s4: "js_mul (Fin (fl (x * multiplier_of p))) (Fin 100) =
            Fin (fl (fl (x * multiplier_of p) * 100))" by simp
  have s5: "Math_round (Fin (fl (fl (x * multiplier_of p) * 100))) = Fin (of_int (cents_of x p))"
    by (simp add: cents_of_def)
  from r(7,8) have n: "0 \<le> real_of_int (cents_of x p) / 100"
    "real_of_int (cents_of x p) / 100 \<le> 10000000000000000" by simp_all
  from to_double_Fin(1) [OF n]
  have s6: "js_div (Fin (of_int (cents_of x p))) (Fin 100) = Fin (cents (cents_of x p))"
    by (simp add: cents_def)
  show ?thesis unfolding discountedPriceOf_def s1 s2 s3 s4 s5 s6 ..
qed

lemma cents_of_mono:
  assumes "0 \<le> p" and "p \<le> 100" and "0 \<le> x" and "x \<le> 10000000000000"
  shows "cents_of x p \<le> cents_of x 0"
proof -
  note r = chain_range [OF assms]
  from r(2) have "x * multiplier_of p \<le> x * multiplier_of 0" by (simp add: multiplier_0)
  from fl_mono [OF r(1) this]
  have "fl (x * multiplier_of p) * 100 \<le> fl (x * multiplier_of 0) * 100" by simp
  moreover from r(3) have "0 \<le> fl (x * multiplier_of p) * 100" by simp
  ultimately have "fl (fl (x * multiplier_of p) * 100) \<le> fl (fl (x * multiplier_of 0) * 100)"
    by (intro fl_mono)
  then show ?thesis unfolding cents_of_def by (intro floor_mono) simp
qed

lemma cents_nonneg: "0 \<le> k \<Longrightarrow> 0 \<le> cents k"
  unfolding cents_def by (rule fl_nonneg) simp

lemma cents_mono: "0 \<le> k \<Longrightarrow> k \<le> l \<Longrightarrow> cents k \<le> cents l"
  unfolding cents_def by (rule fl_mono) simp_all

lemma cents_error:
  assumes "0 \<le> k"
  shows "\<bar>cents k - of_int k / 100\<bar> \<le> of_int k / 100 / 9007199254740992"
proof (cases "k = 0")
  case True
  then show ?thesis by (simp add: cents_def fl_zero)
next
  case False
  with assms have "1 \<le> k" by simp
  then have "1 / 100 \<le> real_of_int k / 100" by simp
  with tiny_normal have "2 powi (- 1022) \<le> \<bar>real_of_int k / 100\<bar>" by linarith
  from fl_rel_error [OF this] assms show ?thesis by (simp add: cents_def)
qed

lemma cents_idem: "0 \<le> k \<Longrightarrow> fl (cents k) = cents k"
  unfolding cents_def by (rule fl_idem) simp

lemma cents_of_cents:
  assumes "0 \<le> k" and "k \<le> 1000000000000000"
  shows "cents_of (cents k) 0 = k"
proof (cases "k = 0")
  case True
  then show ?thesis by (simp add: cents_of_def cents_def fl_zero)
next
  case False
  with assms have k1: "1 \<le> real_of_int k" by simp
  from assms(2) have k2: "real_of_int k \<le> 1000000000000000" by simp
  define x where "x = cents k"
  define y where "y = fl (x * 100)"
  have e1: "\<bar>x - real_of_int k / 100\<bar> \<le> real_of_int k / 100 / 9007199254740992"
    unfolding x_def by (rule cents_error [OF assms(1)])
  then have x1: "x - real_of_int k / 100 \<le> real_of_int k / 100 / 9007199254740992"
    and x2: "real_of_int k / 100 - x \<le> real_of_int k / 100 / 9007199254740992"
    by (simp_all only: abs_le_iff) simp_all
  from x2 k1 have w: "1 / 200 \<le> x * 100" by linarith
  with tiny_normal have "2 powi (- 1022) \<le> \<bar>x * 100\<bar>" by linarith
  from fl_rel_error [OF this] w
  have "\<bar>y - x * 100\<bar> \<le> x * 100 / 9007199254740992" by (simp add: y_def)
  then have y1: "y - x * 100 \<le> x * 100 / 9007199254740992"
    and y2: "x * 100 - y \<le> x * 100 / 9007199254740992"
    by (simp_all only: abs_le_iff) simp_all
  from x1 x2 y1 y2 k1 k2 have "real_of_int k \<le> y + 1 / 2" and "y + 1 / 2 < real_of_int k + 1"
    by linarith+
  then have "\<lfloor>y + 1 / 2\<rfloor> = k" by (intro floor_unique) simp_all
  moreover have "fl (x * multiplier_of 0) = x"
    by (simp add: multiplier_0 x_def cents_idem [OF assms(1)])
  ultimately show ?thesis by (simp add: cents_of_def y_def x_def)
qed


lemma saved_cents:
  assumes "0 \<le> n" and "n \<le> k" and "k \<le> 1000000000000000"
  shows "toFixed2 (js_sub (Fin (cents k)) (Fin (cents n))) = Fin (cents (k - n))"
proof -
  define x where "x = cents k"
  define d where "d = cents n"
  define s where "s = fl (x - d)"
  from assms have k0: "0 \<le> k" by simp
  have rk: "0 \<le> real_of_int n" "real_of_int n \<le> real_of_int k"
    "real_of_int k \<le> 1000000000000000" using assms by simp_all
  have dx: "d \<le> x" unfolding d_def x_def by (rule cents_mono [OF assms(1,2)])
  have d0: "0 \<le> d" unfolding d_def by (rule cents_nonneg [OF assms(1)])
  have "real_of_int k / 100 \<le> 10000000000000" using rk by simp
  moreover have "0 \<le> real_of_int k / 100" using rk by simp
  ultimately have "fl (real_of_int k / 100) \<le> fl 10000000000000" by (intro fl_mono)
  then have x1: "x \<le> 10000000000000" by (simp only: x_def cents_def fl_ten13)
  from dx d0 x1 have sd: "0 \<le> x - d" "x - d \<le> 10000000000000000" by linarith+
  from to_double_Fin [OF sd]
  have sub: "js_sub (Fin x) (Fin d) = Fin s" and s0: "0 \<le> s" and s1: "s \<le> 10000000000000000"
    by (simp_all add: s_def)
  have ex: "\<bar>x - real_of_int k / 100\<bar> \<le> real_of_int k / 100 / 9007199254740992"
    unfolding x_def by (rule cents_error [OF k0])
  then have ex1: "x - real_of_int k / 100 \<le> real_of_int k / 100 / 9007199254740992"
    and ex2: "real_of_int k / 100 - x \<le> real_of_int k / 100 / 9007199254740992"
    by (simp_all only: abs_le_iff) simp_all
  have ed: "\<bar>d - real_of_int n / 100\<bar> \<le> real_of_int n / 100 / 9007199254740992"
    unfolding d_def by (rule cents_error [OF assms(1)])
  then have ed1: "d - real_of_int n / 100 \<le> real_of_int n / 100 / 9007199254740992"
    and ed2: "real_of_int n / 100 - d \<le> real_of_int n / 100 / 9007199254740992"
    by (simp_all only: abs_le_iff) simp_all
  define e where "e = x - d"
  have e0: "0 \<le> e" using sd(1) by (simp add: e_def)
  have "\<bar>s - e\<bar> \<le> \<bar>e\<bar> / 9007199254740992 + 1 / 18446744073709551616"
    unfolding s_def e_def by (rule fl_abs_error64)
  with e0 have es: "\<bar>s - e\<bar> \<le> e / 9007199254740992 + 1 / 18446744073709551616"
    by simp
  then have es1: "s - e \<le> e / 9007199254740992 + 1 / 18446744073709551616"
    and es2: "e - s \<le> e / 9007199254740992 + 1 / 18446744073709551616"
    by (simp_all only: abs_le_iff) simp_all
  define g where "g = real_of_int k / 100 - real_of_int n / 100"
  from ex1 ed2 rk have xd1: "e \<le> g + 1 / 400" unfolding g_def e_def by linarith
  from ex2 ed1 rk have xd2: "g - 1 / 400 \<le> e" unfolding g_def e_def by linarith
  from rk have g1: "g \<le> 10000000000000" unfolding g_def by linarith
  from xd1 g1 es1 have "s \<le> g + 1 / 400 + 1 / 800" by linarith
  moreover from xd1 xd2 g1 es2 have "g - 1 / 400 - 1 / 800 \<le> s" by linarith
  ultimately
  have "real_of_int (k - n) \<le> s * 100 + 1 / 2" and "s * 100 + 1 / 2 < real_of_int (k - n) + 1"
    unfolding g_def of_int_diff by linarith+
  then have fl: "\<lfloor>s * 100 + 1 / 2\<rfloor> = k - n" by (intro floor_unique) simp_all
  have "\<not> 10 ^ 21 \<le> \<bar>s\<bar>" using s0 s1 by simp
  moreover have "\<not> s < 0" using s0 by simp
  ultimately have "toFixed2 (Fin s) = Fin (fl (real_of_int (k - n) / 100))"
    by (simp only: toFixed2.simps if_False fl)
  with sub show ?thesis by (simp only: x_def d_def cents_def)
qed

lemma whole_cents_range:
  assumes "whole_cents x" and "0 \<le> x" and "x \<le> 10000000000000"
  shows "x = cents \<lfloor>x * 100 + 1 / 2\<rfloor>" and "0 \<le> \<lfloor>x * 100 + 1 / 2\<rfloor>"
    and "\<lfloor>x * 100 + 1 / 2\<rfloor> \<le> 1000000000000000"
proof -
  from assms(1) show "x = cents \<lfloor>x * 100 + 1 / 2\<rfloor>" by (simp only: whole_cents_def)
  from assms(2) have "0 \<le> x * 100 + 1 / 2" by simp
  then show "0 \<le> \<lfloor>x * 100 + 1 / 2\<rfloor>" by (simp only: zero_le_floor)
  from assms(3) have "x * 100 + 1 / 2 < 1000000000000000 + 1" by simp
  then have "\<lfloor>x * 100 + 1 / 2\<rfloor> < 1000000000000000 + 1"
    by (simp only: floor_less_iff of_int_add of_int_numeral of_int_1)
  then show "\<lfloor>x * 100 + 1 / 2\<rfloor> \<le> 1000000000000000" by simp
qed


section \<open>What the two pricing functions compute\<close>

lemma getApplicableDiscounts_Inl:
  "getApplicableDiscounts s now productId userId = Inl e \<longleftrightarrow>
     Product_findById s productId = None \<and> e = ProductNotFound"
  by (auto simp: getApplicableDiscounts_def Let_def split: option.splits)

lemma calculateProductDiscount_eq:
  "calculateProductDiscount s now productId userId =
     (case Product_findById s productId of
        None \<Rightarrow> Inl ProductNotFound
      | Some product \<Rightarrow>
          (case getApplicableDiscounts s now productId userId of
             Inl e \<Rightarrow> Inl e
           | Inr ds \<Rightarrow> Inr (pricingOf product (case ds of [] \<Rightarrow> None | d # _ \<Rightarrow> Some d))))"
  by (simp add: calculateProductDiscount_def calculateBestDiscount_def pricingOf_def
      discountedPriceOf_def Let_def split: option.splits sum.splits list.splits)

lemma applyBulkDiscounts_eq:
  "applyBulkDiscounts s now prods userId =
     map (\<lambda>p. \<lparr>pp_product = p,
               pp_pricing = pricingOf p
                 (reduce_max (productDiscounts (bulk_pool s now prods userId) p userId))\<rparr>) prods"
  unfolding applyBulkDiscounts_def bulk_pool_def Let_def
  by (rule map_cong[OF refl]) (simp add: pricingOf_def discountedPriceOf_def split: option.splits)

lemma Product_findById_None:
  "Product_findById s productId = None \<longleftrightarrow> productId \<notin> p_id ` set (db_products s)"
  by (auto simp: Product_findById_def find_None_iff)

section \<open>Error behaviour of the single-product operations\<close>

text \<open>
  Claim C8. \<^verbatim>\<open>getApplicableDiscounts\<close> and \<^verbatim>\<open>calculateProductDiscount\<close> fail with
  "Product not found" exactly when no product of the store has the given id; in every
  other case they return a result, so no other error arises. Both only read the store:
  the source issues \<^verbatim>\<open>findById\<close> and \<^verbatim>\<open>find\<close> queries and no write, which is why the
  model has no store among their results.
\<close>

theorem single_product_NotFound_iff:
  "(productId \<notin> p_id ` set (db_products s) \<longrightarrow>
      getApplicableDiscounts s now productId userId = Inl ProductNotFound \<and>
      calculateProductDiscount s now productId userId = Inl ProductNotFound) \<and>
   (productId \<in> p_id ` set (db_products s) \<longrightarrow>
      (\<exists>ds. getApplicableDiscounts s now productId userId = Inr ds) \<and>
      (\<exists>r. calculateProductDiscount s now productId userId = Inr r))"
proof (cases "Product_findById s productId")
  case None
  then have "productId \<notin> p_id ` set (db_products s)"
    by (simp add: Product_findById_None)
  moreover from None have "getApplicableDiscounts s now productId userId = Inl ProductNotFound"
    by (simp add: getApplicableDiscounts_Inl)
  moreover from None have "calculateProductDiscount s now productId userId = Inl ProductNotFound"
    by (simp add: calculateProductDiscount_eq)
  ultimately show ?thesis by simp
next
  case (Some P)
  then have mem: "productId \<in> p_id ` set (db_products s)"
    using Product_findById_None [of s productId] by simp
  from Some obtain ds where ds: "getApplicableDiscounts s now productId userId = Inr ds"
    by (cases "getApplicableDiscounts s now productId userId")
       (simp_all add: getApplicableDiscounts_Inl)
  with Some have "\<exists>r. calculateProductDiscount s now productId userId = Inr r"
    by (simp add: calculateProductDiscount_eq)
  with mem ds show ?thesis by simp
qed

theorem single_product_NotFound_iff_witness:
  "getApplicableDiscounts shop 50 2 None = Inl ProductNotFound \<and>
   calculateProductDiscount shop 50 2 None = Inl ProductNotFound \<and>
   (\<exists>ds. getApplicableDiscounts shop 50 1 None = Inr ds) \<and>
   (\<exists>r. calculateProductDiscount shop 50 1 None = Inr r)"
  using single_product_NotFound_iff [of 2 shop 50 None]
        single_product_NotFound_iff [of 1 shop 50 None]
  by (simp add: shop_def boots_def)

section \<open>The bulk path\<close>

text \<open>
  Claim C6. \<^verbatim>\<open>applyBulkDiscounts\<close> prices every product from the discounts that its
  per-product filter keeps of the merged pool, and the filter keeps a discount of the pool
  as follows: a \<^verbatim>\<open>general\<close> one always; a \<^verbatim>\<open>category\<close> one exactly when the product's
  category is among its categories; a \<^verbatim>\<open>product\<close> one exactly when the product's id is in
  its products list; a \<^verbatim>\<open>userGroup\<close> one exactly when a user id was supplied, whatever
  the group.
\<close>

theorem productDiscounts_scope:
  "applyBulkDiscounts s now prods userId =
     map (\<lambda>p. \<lparr>pp_product = p,
               pp_pricing = pricingOf p
                 (reduce_max (productDiscounts (bulk_pool s now prods userId) p userId))\<rparr>) prods \<and>
   (d \<in> set (productDiscounts pool product userId) \<longleftrightarrow>
      d \<in> set pool \<and>
      (case dtype d of
         TGeneral \<Rightarrow> True
       | TCategory \<Rightarrow> category product \<in> set (categories d)
       | TProduct \<Rightarrow> p_id product \<in> set (products d)
       | TUserGroup \<Rightarrow> userId \<noteq> None))"
  by (cases "dtype d") (simp_all add: applyBulkDiscounts_eq productDiscounts_def)

theorem productDiscounts_scope_witness:
  "hats_sale \<notin> set (productDiscounts [hats_sale, members_sale] boots (Some 7)) \<and>
   members_sale \<in> set (productDiscounts [hats_sale, members_sale] boots (Some 7)) \<and>
   members_sale \<notin> set (productDiscounts [hats_sale, members_sale] boots None)"
  using productDiscounts_scope [of shop 50 "[boots]" "Some 7" hats_sale "[hats_sale, members_sale]" boots]
        productDiscounts_scope [of shop 50 "[boots]" "Some 7" members_sale "[hats_sale, members_sale]" boots]
        productDiscounts_scope [of shop 50 "[boots]" None members_sale "[hats_sale, members_sale]" boots]
  by (simp add: hats_sale_def members_sale_def boots_def)

text \<open>
  Claim C10. The array returned by \<^verbatim>\<open>applyBulkDiscounts\<close> has the length of the input,
  and its i-th element carries the i-th input product with every field as it was; the
  pricing keys are added beside them. The function builds new objects
  (\<^verbatim>\<open>{...product, ...}\<close>) and assigns to no input, so the inputs are values of the model
  that no result can change.
\<close>

theorem applyBulkDiscounts_frame:
  "length (applyBulkDiscounts s now prods userId) = length prods \<and>
   map pp_product (applyBulkDiscounts s now prods userId) = prods \<and>
   (\<forall>i < length prods. pp_product (applyBulkDiscounts s now prods userId ! i) = prods ! i)"
  by (simp add: applyBulkDiscounts_eq comp_def)

theorem applyBulkDiscounts_frame_witness:
  "length (applyBulkDiscounts shop 50 [boots] None) = 1 \<and>
   map pp_product (applyBulkDiscounts shop 50 [boots] None) = [boots] \<and>
   pp_product (applyBulkDiscounts shop 50 [boots] None ! 0) = boots"
  using applyBulkDiscounts_frame [of shop 50 "[boots]" None] by simp

lemma discount_pricingOf: "discount (pricingOf P best) = best"
  by (cases best) (simp_all add: pricingOf_def)

lemma single_pricingOf:
  assumes "Product_findById s productId = Some P"
    and "calculateProductDiscount s now productId userId = Inr r"
  shows "r = pricingOf P (discount r)"
proof -
  from assms obtain ds where
    "r = pricingOf P (case ds of [] \<Rightarrow> None | d # _ \<Rightarrow> Some d)"
    by (auto simp: calculateProductDiscount_eq split: sum.splits)
  then show ?thesis by (simp add: discount_pricingOf)
qed

lemma bulk_pricingOf:
  assumes "\<lparr>pp_product = P, pp_pricing = r\<rparr> \<in> set (applyBulkDiscounts s now prods userId)"
  shows "r = pricingOf P (discount r)"
  using assms by (auto simp: applyBulkDiscounts_eq discount_pricingOf)

lemma priced_cases:
  assumes "(Product_findById s productId = Some P \<and>
            calculateProductDiscount s now productId userId = Inr r) \<or>
           \<lparr>pp_product = P, pp_pricing = r\<rparr> \<in> set (applyBulkDiscounts s now prods userId)"
  shows "r = pricingOf P (discount r)"
  using assms single_pricingOf bulk_pricingOf by blast

lemma discountedPrice_pricingOf:
  "discountedPrice (pricingOf P (Some d)) = discountedPriceOf (price P) (percentage d)"
  by (simp add: pricingOf_def)

lemma savedAmount_pricingOf:
  "savedAmount (pricingOf P (Some d)) =
     Some (toFixed2 (js_sub (price P) (discountedPrice (pricingOf P (Some d)))))"
  by (simp add: pricingOf_def)

lemma hasDiscount_pricingOf: "hasDiscount (pricingOf P best) \<longleftrightarrow> best \<noteq> None"
  by (cases best) (simp_all add: pricingOf_def)

lemma cents_of_whole_cents:
  assumes "0 \<le> p" and "p \<le> 100" and "0 \<le> x" and "x \<le> 10000000000000"
    and "whole_cents x"
  shows "cents_of x p \<le> \<lfloor>x * 100 + 1 / 2\<rfloor>" and "cents (cents_of x p) \<le> x"
    and "cents_of x 0 = \<lfloor>x * 100 + 1 / 2\<rfloor>"
proof -
  define k where "k = \<lfloor>x * 100 + 1 / 2\<rfloor>"
  from whole_cents_range [OF assms(5,3,4)]
  have xk: "x = cents k" and k0: "0 \<le> k" and k15: "k \<le> 1000000000000000"
    unfolding k_def by simp_all
  have "cents_of (cents k) 0 = k" by (rule cents_of_cents [OF k0 k15])
  then have z: "cents_of x 0 = k" unfolding xk [symmetric] .
  from cents_of_mono [OF assms(1-4)] z have le: "cents_of x p \<le> k" by simp
  from chain_range(7) [OF assms(1-4)] have n0: "0 \<le> cents_of x p" .
  from cents_mono [OF n0 le] have "cents (cents_of x p) \<le> cents k" .
  then have c: "cents (cents_of x p) \<le> x" unfolding xk [symmetric] .
  from le show "cents_of x p \<le> \<lfloor>x * 100 + 1 / 2\<rfloor>" unfolding k_def .
  from c show "cents (cents_of x p) \<le> x" .
  from z show "cents_of x 0 = \<lfloor>x * 100 + 1 / 2\<rfloor>" unfolding k_def .
qed

lemma pricingOf_cents:
  assumes "0 \<le> percentage d" and "percentage d \<le> 100"
    and "price P = Fin x" and "0 \<le> x" and "x \<le> 10000000000000"
  shows "discountedPrice (pricingOf P (Some d)) = Fin (cents (cents_of x (percentage d)))"
  unfolding discountedPrice_pricingOf assms(3)
  by (rule discountedPriceOf_cents [OF assms(1,2,4,5)])

lemma pricingOf_saved_cents:
  assumes "0 \<le> percentage d" and "percentage d \<le> 100"
    and "price P = Fin x" and "0 \<le> x" and "x \<le> 10000000000000"
    and "whole_cents x"
  shows "savedAmount (pricingOf P (Some d)) =
           Some (Fin (cents (\<lfloor>x * 100 + 1 / 2\<rfloor> - cents_of x (percentage d))))"
proof -
  define k where "k = \<lfloor>x * 100 + 1 / 2\<rfloor>"
  define n where "n = cents_of x (percentage d)"
  from whole_cents_range [OF assms(6,4,5)]
  have xk: "x = cents k" and k0: "0 \<le> k" and k15: "k \<le> 1000000000000000"
    unfolding k_def by simp_all
  from chain_range(7) [OF assms(1,2,4,5)] have n0: "0 \<le> n" unfolding n_def .
  from cents_of_whole_cents(1) [OF assms(1,2,4,5,6)] have nk: "n \<le> k"
    unfolding n_def k_def .
  have dp: "discountedPrice (pricingOf P (Some d)) = Fin (cents n)"
    unfolding n_def by (rule pricingOf_cents [OF assms(1-5)])
  have "price P = Fin (cents k)" unfolding assms(3) xk [symmetric] ..
  then have "savedAmount (pricingOf P (Some d)) =
          Some (toFixed2 (js_sub (Fin (cents k)) (Fin (cents n))))"
    unfolding savedAmount_pricingOf dp by simp
  also have "\<dots> = Some (Fin (cents (k - n)))"
    using saved_cents [OF n0 nk k15] by simp
  finally show ?thesis unfolding k_def n_def .
qed

section \<open>Rounding of the discounted price\<close>



lemmas eval_single = calculateProductDiscount_def calculateBestDiscount_def
  getApplicableDiscounts_def Product_findById_def Discount_find_def sort_percentage_desc_def
  Let_def

lemmas eval_bulk = applyBulkDiscounts_def productDiscounts_def reduce_max_def
  Discount_find_def Let_def

lemma cents_1999: "0 \<le> cents 1999" "cents 1999 \<le> 10000000000000" "whole_cents (cents 1999)"
  by (simp_all add: whole_cents_def eval_double)

lemma arcade_scarf: "calculateProductDiscount arcade 50 6 None = Inr scarf_fifteen"
  by (simp add: eval_single arcade_def scarf_def fifteen_off_def scarf_fifteen_def eval_double)

lemma arcade_bulk:
  "applyBulkDiscounts arcade 50 [scarf] None =
     [\<lparr>pp_product = scarf, pp_pricing = scarf_fifteen\<rparr>]"
  by (simp add: eval_bulk arcade_def scarf_def fifteen_off_def scarf_fifteen_def eval_double)

lemma gallery_scarf: "calculateProductDiscount gallery 50 6 None = Inr scarf_zero_percent"
  by (simp add: eval_single gallery_def scarf_def zero_general_def scarf_zero_percent_def
      eval_double)





section \<open>The saved amount\<close>

text \<open>
  Claim C3, amended. Whenever a best discount with a percentage in \<open>[0, 100]\<close> is selected
  for a product whose price is a finite double \<open>x\<close> with \<open>0 \<le> x \<le> 10\<^sup>1\<^sup>3\<close>, on either path,
  \<^verbatim>\<open>savedAmount\<close> is \<^verbatim>\<open>parseFloat((x - discountedPrice).toFixed(2))\<close>: the double
  difference between \<open>x\<close> and the already rounded \<^verbatim>\<open>discountedPrice\<close>, rounded to 2
  decimals a second time. When \<open>x\<close> is a whole number of cents, the double nearest to
  \<open>k / 100\<close>, and \<^verbatim>\<open>discountedPrice\<close> is the double nearest to \<open>n / 100\<close>, then \<open>n \<le> k\<close> and
  \<^verbatim>\<open>savedAmount\<close> is the double nearest to \<open>(k - n) / 100\<close>, which is not negative. For
  another price it can be negative.
\<close>

theorem savedAmount_second_rounding:
  assumes "0 \<le> percentage d" and "percentage d \<le> 100"
    and "price P = Fin x" and "0 \<le> x" and "x \<le> 10000000000000"
    and "(Product_findById s productId = Some P \<and>
          calculateProductDiscount s now productId userId = Inr r) \<or>
         \<lparr>pp_product = P, pp_pricing = r\<rparr> \<in> set (applyBulkDiscounts s now prods userId)"
    and "discount r = Some d"
  shows "savedAmount r = Some (toFixed2 (js_sub (Fin x) (discountedPrice r))) \<and>
         (whole_cents x \<longrightarrow>
            (\<exists>k n. 0 \<le> n \<and> n \<le> k \<and> x = cents k \<and> discountedPrice r = Fin (cents n) \<and>
               savedAmount r = Some (Fin (cents (k - n))) \<and> 0 \<le> cents (k - n)))"
proof -
  from priced_cases [OF assms(6)] assms(7) have r: "r = pricingOf P (Some d)" by simp
  have sv: "savedAmount r = Some (toFixed2 (js_sub (Fin x) (discountedPrice r)))"
    unfolding r savedAmount_pricingOf assms(3) ..
  have wc: "\<exists>k n. 0 \<le> n \<and> n \<le> k \<and> x = cents k \<and> discountedPrice r = Fin (cents n) \<and>
               savedAmount r = Some (Fin (cents (k - n))) \<and> 0 \<le> cents (k - n)"
    if w: "whole_cents x"
  proof -
    define k where "k = \<lfloor>x * 100 + 1 / 2\<rfloor>"
    define n where "n = cents_of x (percentage d)"
    from whole_cents_range(1) [OF w assms(4,5)] have xk: "x = cents k" unfolding k_def .
    from chain_range(7) [OF assms(1,2,4,5)] have n0: "0 \<le> n" unfolding n_def .
    from cents_of_whole_cents(1) [OF assms(1,2,4,5) w] have nk: "n \<le> k"
      unfolding n_def k_def .
    have dp: "discountedPrice r = Fin (cents n)"
      unfolding r n_def by (rule pricingOf_cents [OF assms(1-5)])
    have sa: "savedAmount r = Some (Fin (cents (k - n)))"
      unfolding r k_def n_def by (rule pricingOf_saved_cents [OF assms(1-5) w])
    from nk have "0 \<le> k - n" by simp
    then have "0 \<le> cents (k - n)" by (rule cents_nonneg)
    with n0 nk xk dp sa show ?thesis by blast
  qed
  from sv wc show ?thesis by blast
qed

theorem savedAmount_second_rounding_witness:
  "calculateProductDiscount arcade 50 6 None = Inr scarf_fifteen \<and>
   price scarf = Fin (cents 1999) \<and>
   discount scarf_fifteen = Some fifteen_off \<and>
   discountedPrice scarf_fifteen = Fin (cents 1699) \<and>
   savedAmount scarf_fifteen = Some (Fin (cents 300)) \<and>
   savedAmount scarf_fifteen =
     Some (toFixed2 (js_sub (Fin (cents 1999)) (discountedPrice scarf_fifteen))) \<and>
   0 \<le> cents 300 \<and>
   \<lparr>pp_product = scarf, pp_pricing = scarf_fifteen\<rparr>
     \<in> set (applyBulkDiscounts arcade 50 [scarf] None) \<and>
   (\<exists>k n. 0 \<le> n \<and> n \<le> k \<and> cents 1999 = cents k \<and> cents 1699 = cents n \<and>
      cents 300 = cents (k - n))"
proof -
  have f: "Product_findById arcade 6 = Some scarf"
    by (simp add: Product_findById_def arcade_def scarf_def)
  have x: "price scarf = Fin (cents 1999)" by (simp add: scarf_def)
  have p: "0 \<le> percentage fifteen_off" "percentage fifteen_off \<le> 100"
    by (simp_all add: fifteen_off_def)
  have d: "discount scarf_fifteen = Some fifteen_off" by (simp add: scarf_fifteen_def)
  have dp: "discountedPrice scarf_fifteen = Fin (cents 1699)" by (simp add: scarf_fifteen_def)
  have sa: "savedAmount scarf_fifteen = Some (Fin (cents 300))"
    by (simp add: scarf_fifteen_def)
  have m: "\<lparr>pp_product = scarf, pp_pricing = scarf_fifteen\<rparr>
             \<in> set (applyBulkDiscounts arcade 50 [scarf] None)"
    by (simp add: arcade_bulk)
  have single: "savedAmount scarf_fifteen =
                  Some (toFixed2 (js_sub (Fin (cents 1999)) (discountedPrice scarf_fifteen))) \<and>
                0 \<le> cents 300"
  proof -
    from f arcade_scarf
    have "(Product_findById arcade 6 = Some scarf \<and>
           calculateProductDiscount arcade 50 6 None = Inr scarf_fifteen) \<or>
          \<lparr>pp_product = scarf, pp_pricing = scarf_fifteen\<rparr>
            \<in> set (applyBulkDiscounts arcade 50 [] None)"
      by simp
    from savedAmount_second_rounding [OF p x cents_1999(1,2) this d] cents_1999(3)
    obtain k n where
        s: "savedAmount scarf_fifteen =
              Some (toFixed2 (js_sub (Fin (cents 1999)) (discountedPrice scarf_fifteen)))"
        and kn: "savedAmount scarf_fifteen = Some (Fin (cents (k - n)))" "0 \<le> cents (k - n)"
      by blast
    from kn(1) sa have "cents (k - n) = cents 300" by simp
    with kn(2) s show ?thesis by simp
  qed
  have bulk: "\<exists>k n. 0 \<le> n \<and> n \<le> k \<and> cents 1999 = cents k \<and> cents 1699 = cents n \<and>
                cents 300 = cents (k - n)"
  proof -
    from m
    have "(Product_findById arcade 6 = Some scarf \<and>
           calculateProductDiscount arcade 50 6 None = Inr scarf_fifteen) \<or>
          \<lparr>pp_product = scarf, pp_pricing = scarf_fifteen\<rparr>
            \<in> set (applyBulkDiscounts arcade 50 [scarf] None)"
      by simp
    from savedAmount_second_rounding [OF p x cents_1999(1,2) this d] cents_1999(3)
    obtain k n where kn: "0 \<le> n" "n \<le> k" "cents 1999 = cents k"
        "discountedPrice scarf_fifteen = Fin (cents n)"
        "savedAmount scarf_fifteen = Some (Fin (cents (k - n)))"
      by blast
    from kn(4) dp have a: "cents 1699 = cents n" by simp
    from kn(5) sa have b: "cents 300 = cents (k - n)" by simp
    from kn(1,2,3) a b show ?thesis by blast
  qed
  from single bulk arcade_scarf x d dp sa m show ?thesis by blast
qed

text \<open>
  The claim as stated fails. For a price of 1.25 and 50 percent the unrounded difference
  0.625 rounds to 0.63, but the code rounds the discounted price to 0.63 first and then
  rounds 1.25 - 0.63 to 0.62. For a price of 0.375 and 0 percent the discounted price is
  0.38 and the saved amount is -0.01, which is negative.
\<close>

theorem savedAmount_not_single_rounding:
  "calculateProductDiscount bakery 50 4 None =
     Inr \<lparr>originalPrice = Fin (5 / 4), discountedPrice = Fin (cents 63),
          discountPercentage = Some 50, discount = Some half_off, hasDiscount = True,
          savedAmount = Some (Fin (cents 62)), discountType = Some TGeneral\<rparr> \<and>
   price bun = Fin (5 / 4) \<and> percentage half_off = 50 \<and>
   round2 (5 / 4 - 5 / 4 * (100 - 50) / 100) = 63 / 100 \<and> cents 62 \<noteq> cents 63 \<and>
   map pp_pricing (applyBulkDiscounts kiosk 50 [button] None) =
     [\<lparr>originalPrice = Fin (3 / 8), discountedPrice = Fin (cents 38),
       discountPercentage = Some 0, discount = Some zero_general, hasDiscount = True,
       savedAmount = Some (Fin (- cents 1)), discountType = Some TGeneral\<rparr>] \<and>
   - cents 1 < 0"
  by (simp add: eval_single eval_bulk round2_def bakery_def bun_def half_off_def
      kiosk_def sticker_def button_def zero_general_def eval_double)

section \<open>A discount of zero percent\<close>

text \<open>
  Claim C9, amended. For every existing product, \<^verbatim>\<open>calculateProductDiscount\<close> returns
  \<^verbatim>\<open>hasDiscount = true\<close> exactly when \<^verbatim>\<open>getApplicableDiscounts\<close> returns some discount,
  also when the selected discount has percentage 0. In that case \<^verbatim>\<open>discountedPrice\<close>
  equals the original price and \<^verbatim>\<open>savedAmount\<close> is 0 whenever the original price is a
  finite double \<open>x\<close> with \<open>0 \<le> x \<le> 10\<^sup>1\<^sup>3\<close> that is a whole number of cents; for another price
  the discounted price is rounded to cents and differs from it. When no discount
  matches, the result is
  \<^verbatim>\<open>{originalPrice, discountedPrice = originalPrice, hasDiscount = false}\<close>.
\<close>

theorem hasDiscount_iff_applicable:
  assumes "Product_findById s productId = Some P"
  shows "\<exists>ds r. getApplicableDiscounts s now productId userId = Inr ds \<and>
           calculateProductDiscount s now productId userId = Inr r \<and>
           (hasDiscount r \<longleftrightarrow> ds \<noteq> []) \<and>
           (ds = [] \<longrightarrow>
              r = \<lparr>originalPrice = price P, discountedPrice = price P,
                   discountPercentage = None, discount = None, hasDiscount = False,
                   savedAmount = None, discountType = None\<rparr>) \<and>
           (\<forall>d. discount r = Some d \<and> percentage d = 0 \<longrightarrow>
              hasDiscount r \<and>
              (\<forall>x. price P = Fin x \<and> 0 \<le> x \<and> x \<le> 10000000000000 \<and> whole_cents x \<longrightarrow>
                 discountedPrice r = price P \<and> savedAmount r = Some (Fin 0)))"
proof -
  from assms obtain ds where ds: "getApplicableDiscounts s now productId userId = Inr ds"
    by (cases "getApplicableDiscounts s now productId userId")
       (simp_all add: getApplicableDiscounts_Inl)
  define best where "best = (case ds of [] \<Rightarrow> None | d # _ \<Rightarrow> Some d)"
  define r where "r = pricingOf P best"
  from assms ds have cpd: "calculateProductDiscount s now productId userId = Inr r"
    by (simp add: calculateProductDiscount_eq r_def best_def)
  have h: "hasDiscount r \<longleftrightarrow> ds \<noteq> []"
    by (cases ds) (simp_all add: r_def best_def hasDiscount_pricingOf)
  have none: "r = \<lparr>originalPrice = price P, discountedPrice = price P,
                   discountPercentage = None, discount = None, hasDiscount = False,
                   savedAmount = None, discountType = None\<rparr>" if "ds = []"
    using that by (simp add: r_def best_def pricingOf_def)
  have zero: "hasDiscount r \<and>
              (\<forall>x. price P = Fin x \<and> 0 \<le> x \<and> x \<le> 10000000000000 \<and> whole_cents x \<longrightarrow>
                 discountedPrice r = price P \<and> savedAmount r = Some (Fin 0))"
    if "discount r = Some d \<and> percentage d = 0" for d
  proof -
    from that have b: "best = Some d" and p: "percentage d = 0"
      by (simp_all add: r_def discount_pricingOf)
    have hd: "hasDiscount r" by (simp add: r_def b hasDiscount_pricingOf)
    have "discountedPrice r = price P \<and> savedAmount r = Some (Fin 0)"
      if x: "price P = Fin x \<and> 0 \<le> x \<and> x \<le> 10000000000000 \<and> whole_cents x" for x
    proof -
      from x have px: "price P = Fin x" and x0: "0 \<le> x" and x13: "x \<le> 10000000000000"
        and w: "whole_cents x" by simp_all
      have p0: "0 \<le> percentage d" "percentage d \<le> 100" using p by simp_all
      define k where "k = \<lfloor>x * 100 + 1 / 2\<rfloor>"
      from whole_cents_range(1) [OF w x0 x13] have xk: "x = cents k" unfolding k_def .
      from cents_of_whole_cents(3) [OF p0 x0 x13 w] have z: "cents_of x (percentage d) = k"
        unfolding k_def p .
      from pricingOf_cents [OF p0 px x0 x13]
      have "discountedPrice r = Fin (cents k)" unfolding r_def b z .
      then have dp: "discountedPrice r = price P" unfolding px xk [symmetric] .
      from pricingOf_saved_cents [OF p0 px x0 x13 w]
      have "savedAmount r = Some (Fin (cents (k - k)))" unfolding r_def b z k_def .
      then have "savedAmount r = Some (Fin 0)" by (simp add: cents_def fl_zero)
      with dp show ?thesis by simp
    qed
    with hd show ?thesis by blast
  qed
  from ds cpd h none zero show ?thesis by blast
qed

lemma bare_shop_boots: "calculateProductDiscount bare_shop 50 1 None = Inr boots_undiscounted"
  by (simp add: eval_single bare_shop_def boots_def boots_undiscounted_def)

theorem hasDiscount_iff_applicable_witness:
  "getApplicableDiscounts gallery 50 6 None = Inr [zero_general] \<and>
   calculateProductDiscount gallery 50 6 None = Inr scarf_zero_percent \<and>
   hasDiscount scarf_zero_percent \<and>
   discountedPrice scarf_zero_percent = price scarf \<and>
   savedAmount scarf_zero_percent = Some (Fin 0) \<and>
   getApplicableDiscounts bare_shop 50 1 None = Inr [] \<and>
   calculateProductDiscount bare_shop 50 1 None = Inr boots_undiscounted \<and>
   \<not> hasDiscount boots_undiscounted \<and>
   discountedPrice boots_undiscounted = price boots"
proof -
  have f1: "Product_findById gallery 6 = Some scarf"
    by (simp add: Product_findById_def gallery_def scarf_def)
  have f2: "Product_findById bare_shop 1 = Some boots"
    by (simp add: Product_findById_def bare_shop_def boots_def)
  have g1: "getApplicableDiscounts gallery 50 6 None = Inr [zero_general]"
    by (simp add: getApplicableDiscounts_def Product_findById_def gallery_def scarf_def
        zero_general_def Discount_find_def sort_percentage_desc_def)
  have g2: "getApplicableDiscounts bare_shop 50 1 None = Inr []"
    by (simp add: getApplicableDiscounts_def Product_findById_def bare_shop_def boots_def
        Discount_find_def sort_percentage_desc_def)
  have d: "discount scarf_zero_percent = Some zero_general \<and> percentage zero_general = 0"
    by (simp add: scarf_zero_percent_def zero_general_def)
  have x: "price scarf = Fin (cents 1999) \<and> 0 \<le> cents 1999 \<and>
           cents 1999 \<le> 10000000000000 \<and> whole_cents (cents 1999)"
    using cents_1999 by (simp add: scarf_def)
  from hasDiscount_iff_applicable [OF f1, of 50 None]
  obtain r where r: "calculateProductDiscount gallery 50 6 None = Inr r"
      "\<forall>d. discount r = Some d \<and> percentage d = 0 \<longrightarrow>
         hasDiscount r \<and>
         (\<forall>x. price scarf = Fin x \<and> 0 \<le> x \<and> x \<le> 10000000000000 \<and> whole_cents x \<longrightarrow>
            discountedPrice r = price scarf \<and> savedAmount r = Some (Fin 0))"
    by blast
  from r(1) gallery_scarf have rr: "r = scarf_zero_percent" by simp
  from r(2) d x
  have a: "hasDiscount scarf_zero_percent \<and>
           discountedPrice scarf_zero_percent = price scarf \<and>
           savedAmount scarf_zero_percent = Some (Fin 0)"
    unfolding rr by blast
  from hasDiscount_iff_applicable [OF f2, of 50 None]
  obtain ds r' where r': "getApplicableDiscounts bare_shop 50 1 None = Inr ds"
      "calculateProductDiscount bare_shop 50 1 None = Inr r'"
      "hasDiscount r' \<longleftrightarrow> ds \<noteq> []"
      "ds = [] \<longrightarrow>
         r' = \<lparr>originalPrice = price boots, discountedPrice = price boots,
               discountPercentage = None, discount = None, hasDiscount = False,
               savedAmount = None, discountType = None\<rparr>"
    by blast
  from r'(1) g2 have e: "ds = []" by simp
  from r'(2) bare_shop_boots have rb: "r' = boots_undiscounted" by simp
  from r'(3) e have nh: "\<not> hasDiscount boots_undiscounted" unfolding rb by simp
  from r'(4) e have "discountedPrice r' = price boots" by simp
  then have b: "discountedPrice boots_undiscounted = price boots" unfolding rb .
  from a nh b g1 g2 gallery_scarf bare_shop_boots show ?thesis by blast
qed

text \<open>
  The claim as stated fails in its parenthesis: under a discount of 0 percent a price of
  0.375 gives a discounted price of 0.38, not the original price, and a saved amount of
  -0.01, not 0.
\<close>

theorem zero_percent_changes_price:
  "calculateProductDiscount kiosk 50 3 None =
     Inr \<lparr>originalPrice = Fin (3 / 8), discountedPrice = Fin (cents 38),
          discountPercentage = Some 0, discount = Some zero_general, hasDiscount = True,
          savedAmount = Some (Fin (- cents 1)), discountType = Some TGeneral\<rparr> \<and>
   percentage zero_general = 0 \<and> price button = Fin (3 / 8) \<and>
   Fin (cents 38) \<noteq> Fin (3 / 8) \<and> Fin (- cents 1) \<noteq> Fin 0"
  by (simp add: eval_single kiosk_def sticker_def button_def zero_general_def eval_double)

section \<open>Scope of the single-product query\<close>

text \<open>Whatever \<^verbatim>\<open>getApplicableDiscounts\<close> returns is active and within its window.\<close>

lemma getApplicableDiscounts_in_window:
  assumes "getApplicableDiscounts s now productId userId = Inr ds" and "d \<in> set ds"
  shows "d \<in> set (db_discounts s) \<and> startDate d \<le> now \<and> now \<le> endDate d \<and> active d"
  using assms
  by (auto simp: getApplicableDiscounts_def Discount_find_def sort_percentage_desc_def Let_def
      split: option.splits)

text \<open>
  What \<^verbatim>\<open>getApplicableDiscounts\<close> does return for an existing product: the stored
  discounts that are active and within their window and that list the product id in
  \<^verbatim>\<open>products\<close> (whatever their type), or are \<^verbatim>\<open>category\<close> discounts for the product's
  category, or are \<^verbatim>\<open>general\<close>, or are \<^verbatim>\<open>userGroup\<close> discounts for the group of the
  user supplied.
\<close>

lemma getApplicableDiscounts_set:
  assumes "Product_findById s productId = Some P"
  shows "\<exists>ds. getApplicableDiscounts s now productId userId = Inr ds \<and>
           set ds =
             {d \<in> set (db_discounts s).
                startDate d \<le> now \<and> now \<le> endDate d \<and> active d \<and>
                (productId \<in> set (products d) \<or>
                 (dtype d = TCategory \<and> category P \<in> set (categories d)) \<or>
                 dtype d = TGeneral \<or>
                 (\<exists>uid u. userId = Some uid \<and> User_findById s uid = Some u \<and>
                    truthy (u_userGroup u) \<and>
                    dtype d = TUserGroup \<and> d_userGroup d = u_userGroup u))}"
  using assms
  by (auto simp: getApplicableDiscounts_def Discount_find_def sort_percentage_desc_def Let_def
      split: option.splits)

text \<open>
  Claim C4 names the discounts that \<^verbatim>\<open>getApplicableDiscounts\<close> returns by their scope:
  general, category-scoped to the product's category, or product-scoped to the product.
  The first branch of the query is \<^verbatim>\<open>{products: productId}\<close> with no \<^verbatim>\<open>type\<close>, so a
  discount of any type is returned once its \<^verbatim>\<open>products\<close> array holds the id. Here a
  \<^verbatim>\<open>category\<close> discount for hats is returned for boots of category shoes.
\<close>

theorem getApplicableDiscounts_ignores_type:
  "getApplicableDiscounts shop 50 1 None = Inr [hats_sale] \<and>
   Product_findById shop 1 = Some boots \<and>
   dtype hats_sale = TCategory \<and>
   category boots \<notin> set (categories hats_sale)"
  by (simp add: getApplicableDiscounts_def Product_findById_def shop_def boots_def hats_sale_def
      Discount_find_def sort_percentage_desc_def)

text \<open>
  Claim C5 says that a \<^verbatim>\<open>category\<close> discount is never selected for a product outside
  its categories and a \<^verbatim>\<open>userGroup\<close> discount never without a user id, on both paths.
  The bulk path keeps to this; the single path selects the hats discount for the boots,
  and the staff discount with no user id.
\<close>

theorem single_path_selects_out_of_scope:
  "calculateBestDiscount shop 50 1 None = Inr (Some hats_sale) \<and>
   dtype hats_sale = TCategory \<and> category boots \<notin> set (categories hats_sale) \<and>
   calculateBestDiscount outlet 50 1 None = Inr (Some staff_sale) \<and>
   dtype staff_sale = TUserGroup \<and>
   map (\<lambda>pp. discount (pp_pricing pp)) (applyBulkDiscounts shop 50 [boots] None) = [None] \<and>
   map (\<lambda>pp. discount (pp_pricing pp)) (applyBulkDiscounts outlet 50 [boots] None) = [None]"
  by (simp add: calculateBestDiscount_def getApplicableDiscounts_def Product_findById_def
      applyBulkDiscounts_def productDiscounts_def reduce_max_def
      shop_def outlet_def boots_def hats_sale_def staff_sale_def
      Discount_find_def sort_percentage_desc_def)

section \<open>Bulk and single pricing\<close>

text \<open>
  Claim C1 says that \<^verbatim>\<open>applyBulkDiscounts([P], U)[0]\<close> carries the pricing fields of
  \<^verbatim>\<open>calculateProductDiscount(P._id, U)\<close>. For the boots and the hats discount the single
  path returns half the price and the bulk path returns the no-discount shape: the bulk
  filter asks for \<^verbatim>\<open>d.type === 'product'\<close> before it looks at \<^verbatim>\<open>d.products\<close>, the
  single query does not.
\<close>

theorem bulk_differs_from_single:
  "calculateProductDiscount shop 50 1 None = Inr boots_half_price \<and>
   map pp_pricing (applyBulkDiscounts shop 50 [boots] None) = [boots_undiscounted] \<and>
   hasDiscount boots_half_price \<and> \<not> hasDiscount boots_undiscounted \<and>
   discountedPrice boots_half_price = Fin 50 \<and>
   discountedPrice boots_undiscounted = Fin 100"
  by (simp add: calculateProductDiscount_def calculateBestDiscount_def getApplicableDiscounts_def
      Product_findById_def applyBulkDiscounts_def productDiscounts_def reduce_max_def
      shop_def boots_def hats_sale_def boots_half_price_def boots_undiscounted_def
      Discount_find_def sort_percentage_desc_def Let_def eval_double)

section \<open>The active flag\<close>

text \<open>On creation the \<^verbatim>\<open>save\<close> middleware sets \<^verbatim>\<open>active\<close> from the window.\<close>

lemma createDiscount_active:
  assumes "createDiscount s now newId discountData = Inr (d, s')"
  shows "active d \<longleftrightarrow> startDate d \<le> now \<and> now \<le> endDate d"
    and "db_discounts s' = db_discounts s @ [d]"
  using assms
  by (auto simp: createDiscount_def pre_save_def Let_def split: sum.splits)

text \<open>
  Claim C2 says that after every persist, creation or update, \<^verbatim>\<open>active\<close> is true only
  when the window contains the time of the persist and the rule has not been switched off
  by the administrator. \<^verbatim>\<open>updateDiscount\<close> goes through \<^verbatim>\<open>findByIdAndUpdate\<close> and
  recomputes nothing: the running discount whose window is moved to 200..300 at time 50
  stays active. On creation the middleware overwrites the flag, so a discount created
  with \<^verbatim>\<open>active: false\<close> inside its window is stored active.
\<close>

theorem updateDiscount_keeps_active:
  "updateDiscount promo 15 postpone =
     Inr (Some (spring_sale\<lparr>startDate := 200, endDate := 300\<rparr>),
          promo\<lparr>db_discounts := [spring_sale\<lparr>startDate := 200, endDate := 300\<rparr>]\<rparr>) \<and>
   active (spring_sale\<lparr>startDate := 200, endDate := 300\<rparr>) \<and>
   \<not> (startDate (spring_sale\<lparr>startDate := 200, endDate := 300\<rparr>) \<le> 50) \<and>
   dd_active switched_off = Some False \<and>
   map_sum id (\<lambda>(d, s'). (active d, d \<in> set (db_discounts s')))
     (createDiscount bare_shop 50 16 switched_off) = Inr (True, True)"
  by (simp add: updateDiscount_def update_valid_def apply_update_def promo_def postpone_def
      no_change_def spring_sale_def createDiscount_def Discount_new_def pre_save_def
      percentage_valid_def switched_off_def bare_shop_def Let_def)

end
